theory Spec2Isabelle
  imports Main "HOL-Library.AList"
begin

section \<open>Rotation-tolerant JWT-bearer token acquisition (sf_kpi_jwt_runner.py)\<close>

text \<open>
  A shallow embedding of the key-ring helpers and of \<open>get_access_token_via_jwt\<close>.
  Python strings are \<open>string\<close> (text over the code points below 256), the JSON values
  that \<open>json.load\<close> and \<open>resp.json()\<close> produce are a datatype, exceptions and \<open>sys.exit\<close>
  are values, and everything outside the process (key files, the clock, the signer, the
  network, the disk) is a record of oracles, indexed by the number of the loop iteration
  that consults them.
\<close>

subsection \<open>Strings\<close>

text \<open>
  \<open>str.strip()\<close> removes the characters for which \<open>str.isspace\<close> holds; below 256 these
  are TAB, LF, VT, FF, CR, the four separators 0x1C..0x1F, the space, NEL (0x85) and
  the no-break space (0xA0).
\<close>

definition py_isspace :: "char \<Rightarrow> bool" where
  "py_isspace c =
     (let n = (of_char c :: nat)
      in (9 \<le> n \<and> n \<le> 13) \<or> (28 \<le> n \<and> n \<le> 32) \<or> n = 133 \<or> n = 160)"

definition strip :: "string \<Rightarrow> string" where
  "strip s = rev (dropWhile py_isspace (rev (dropWhile py_isspace s)))"

text \<open>\<open>s.split(sep)\<close> for a one-character separator: never an empty list.\<close>

fun split_on :: "char \<Rightarrow> string \<Rightarrow> string list" where
  "split_on sep [] = [[]]"
| "split_on sep (c # cs) =
     (if c = sep then [] # split_on sep cs
      else (case split_on sep cs of
              [] \<Rightarrow> [[c]]
            | p # ps \<Rightarrow> (c # p) # ps))"

text \<open>
  \<open>s.split(sep, 1)\<close> on a string that contains the separator: the text before the
  first occurrence and the text after it.
\<close>

definition split_first :: "char \<Rightarrow> string \<Rightarrow> string \<times> string" where
  "split_first sep s =
     (takeWhile (\<lambda>c. c \<noteq> sep) s, drop 1 (dropWhile (\<lambda>c. c \<noteq> sep) s))"

subsection \<open>JSON values, exceptions, outcomes\<close>

text \<open>
  What \<open>json.load\<close> returns. \<open>JNull\<close> is Python's \<open>None\<close>; an object is a \<open>dict\<close>, kept
  as an association list in insertion order. Numbers are integers here: the code only
  tests a number for truth and compares it with a string.
\<close>

datatype json =
    JNull
  | JBool bool
  | JInt int
  | JStr string
  | JArr "json list"
  | JObj "(string \<times> json) list"

text \<open>Python's truth value of such a value (\<open>if preferred_kid:\<close>).\<close>

fun truthy :: "json \<Rightarrow> bool" where
  "truthy JNull = False"
| "truthy (JBool b) = b"
| "truthy (JInt n) = (n \<noteq> 0)"
| "truthy (JStr s) = (s \<noteq> [])"
| "truthy (JArr xs) = (xs \<noteq> [])"
| "truthy (JObj kvs) = (kvs \<noteq> [])"

fun py_type_name :: "json \<Rightarrow> string" where
  "py_type_name JNull = ''NoneType''"
| "py_type_name (JBool b) = ''bool''"
| "py_type_name (JInt n) = ''int''"
| "py_type_name (JStr s) = ''str''"
| "py_type_name (JArr xs) = ''list''"
| "py_type_name (JObj kvs) = ''dict''"

text \<open>An exception (a subclass of \<open>Exception\<close>): \<open>type(e).__name__\<close> and \<open>str(e)\<close>.\<close>

datatype py_exc = Exc (exc_type: string) (exc_msg: string)

text \<open>
  \<open>last_err\<close>: \<open>None\<close>, \<open>(resp.status_code, resp.text)\<close> or
  \<open>(type(e).__name__, str(e))\<close>.
\<close>

datatype last_err = NoErr | HttpErr int string | ExcErr string string

definition err_of_exc :: "py_exc \<Rightarrow> last_err" where
  "err_of_exc e = ExcErr (exc_type e) (exc_msg e)"

text \<open>
  \<open>str\<close> of \<open>last_err\<close>, as the f-string of line 128 prints it: \<open>None\<close>, or the tuple
  with \<open>repr\<close> of its two components. \<open>repr\<close> of an \<open>int\<close> is its decimal numeral. \<open>repr\<close>
  of a \<open>str\<close> is the text between single quotes, or between double quotes when it holds
  a single quote and no double quote; the quote used and the backslash are escaped with
  a backslash, TAB, LF and CR are written \<open>\t\<close>, \<open>\n\<close>, \<open>\r\<close>, and any other
  character that \<open>str.isprintable\<close> rejects (below 256: the controls, 0x7F to 0xA0, and
  the soft hyphen 0xAD) is written \<open>\xhh\<close>.
\<close>

definition digit_char :: "nat \<Rightarrow> char" where
  "digit_char n = ''0123456789abcdef'' ! n"

fun decimal :: "nat \<Rightarrow> string" where
  "decimal n = (if n < 10 then [digit_char n] else decimal (n div 10) @ [digit_char (n mod 10)])"

declare decimal.simps [simp del]

definition repr_int :: "int \<Rightarrow> string" where
  "repr_int n = (if n < 0 then ''-'' @ decimal (nat (- n)) else decimal (nat n))"

definition py_isprintable :: "char \<Rightarrow> bool" where
  "py_isprintable c =
     (let n = (of_char c :: nat) in (32 \<le> n \<and> n < 127) \<or> (160 < n \<and> n \<noteq> 173))"

definition repr_char :: "char \<Rightarrow> char \<Rightarrow> string" where
  "repr_char quote c =
     (if c = quote \<or> c = CHR 0x5C then [CHR 0x5C, c]
      else if c = CHR 0x09 then [CHR 0x5C, CHR ''t'']
      else if c = CHR 0x0A then [CHR 0x5C, CHR ''n'']
      else if c = CHR 0x0D then [CHR 0x5C, CHR ''r'']
      else if py_isprintable c then [c]
      else [CHR 0x5C, CHR ''x'', digit_char (of_char c div 16), digit_char (of_char c mod 16)])"

definition repr_str :: "string \<Rightarrow> string" where
  "repr_str s =
     (let quote = (if CHR 0x27 \<in> set s \<and> CHR 0x22 \<notin> set s then CHR 0x22 else CHR 0x27)
      in [quote] @ concat (map (repr_char quote) s) @ [quote])"

fun str_last_err :: "last_err \<Rightarrow> string" where
  "str_last_err NoErr = ''None''"
| "str_last_err (HttpErr status body) = ''('' @ repr_int status @ '', '' @ repr_str body @ '')''"
| "str_last_err (ExcErr ty msg) = ''('' @ repr_str ty @ '', '' @ repr_str msg @ '')''"

text \<open>
  How a call of \<open>get_access_token_via_jwt\<close> (or the script up to it) ends: it returns the
  pair \<open>(tok["access_token"], tok["instance_url"])\<close>, it leaves through \<open>sys.exit(msg)\<close>,
  or an exception propagates.
\<close>

datatype outcome = Returned json json | SysExit string | Raised py_exc

text \<open>
  The process status: \<open>sys.exit\<close> with a string prints it to stderr and exits with 1,
  an uncaught exception exits with 1 as well.
\<close>

fun exit_status :: "outcome \<Rightarrow> int option" where
  "exit_status (Returned a h) = None"
| "exit_status (SysExit msg) = Some 1"
| "exit_status (Raised e) = Some 1"

text \<open>\<open>tok[key]\<close> for a string key.\<close>

definition quoted :: "string \<Rightarrow> string" where
  "quoted s = [CHR 0x27] @ s @ [CHR 0x27]"

fun subscript :: "json \<Rightarrow> string \<Rightarrow> py_exc + json" where
  "subscript (JObj kvs) k =
     (case map_of kvs k of
        None \<Rightarrow> Inl (Exc ''KeyError'' (quoted k))
      | Some v \<Rightarrow> Inr v)"
| "subscript (JArr xs) k =
     Inl (Exc ''TypeError'' ''list indices must be integers or slices, not str'')"
| "subscript (JStr s) k =
     Inl (Exc ''TypeError'' (''string indices must be integers, not '' @ quoted ''str''))"
| "subscript v k =
     Inl (Exc ''TypeError'' (quoted (py_type_name v) @ '' object is not subscriptable''))"

subsection \<open>Configuration\<close>

text \<open>The module-level settings the core reads, after \<open>.strip()\<close>.\<close>

record config =
  SF_CLIENT_ID :: string
  SF_JWT_USERNAME :: string
  SF_DOMAIN :: string
  SF_PRIVATE_KEY_PATH :: string
  SF_KEYS :: string
  TENANT_ID :: string
  KEYMAP_PATH :: string

text \<open>\<open>os.environ.get(name, default)\<close>.\<close>

definition environ_get :: "(string \<rightharpoonup> string) \<Rightarrow> string \<Rightarrow> string \<Rightarrow> string" where
  "environ_get environ name dflt = (case environ name of None \<Rightarrow> dflt | Some v \<Rightarrow> v)"

text \<open>
  Lines 15 to 23. \<open>os.path.expanduser\<close> is the library's; it is a parameter.
\<close>

definition read_config :: "(string \<Rightarrow> string) \<Rightarrow> (string \<rightharpoonup> string) \<Rightarrow> config" where
  "read_config expanduser environ =
     \<lparr> SF_CLIENT_ID = strip (environ_get environ ''SF_CLIENT_ID'' ''''),
       SF_JWT_USERNAME = strip (environ_get environ ''SF_JWT_USERNAME'' ''''),
       SF_DOMAIN = strip (environ_get environ ''SF_DOMAIN'' ''login''),
       SF_PRIVATE_KEY_PATH = strip (environ_get environ ''SF_PRIVATE_KEY_PATH'' ''''),
       SF_KEYS = strip (environ_get environ ''SF_KEYS'' ''''),
       TENANT_ID = strip (environ_get environ ''TENANT_ID'' ''default''),
       KEYMAP_PATH = expanduser (environ_get environ ''KEYMAP_PATH'' ''~/.sf_kpi_keymap.json'') \<rparr>"

text \<open>Lines 28 to 31: the message of the \<open>sys.exit\<close> taken, if any.\<close>

definition module_checks :: "config \<Rightarrow> string option" where
  "module_checks cfg =
     (if SF_CLIENT_ID cfg = [] \<or> SF_JWT_USERNAME cfg = []
        then Some ''Missing SF_CLIENT_ID or SF_JWT_USERNAME''
      else if SF_KEYS cfg = [] \<and> SF_PRIVATE_KEY_PATH cfg = []
        then Some ''Provide either SF_KEYS (key_id:path,...) or SF_PRIVATE_KEY_PATH''
      else None)"

subsection \<open>The key ring\<close>

type_synonym key_entry = "string \<times> string"

text \<open>The \<open>for part in SF_KEYS.split(",")\<close> loop, \<open>keys\<close> being the list built so far.\<close>

fun parse_parts :: "(string \<Rightarrow> string) \<Rightarrow> string list \<Rightarrow> key_entry list \<Rightarrow> key_entry list" where
  "parse_parts expanduser [] keys = keys"
| "parse_parts expanduser (part # rest) keys =
     (let part = strip part in
      if part = [] then parse_parts expanduser rest keys
      else if CHR '':'' \<notin> set part then parse_parts expanduser rest keys
      else (case split_first CHR '':'' part of
              (kid, path) \<Rightarrow>
                parse_parts expanduser rest (keys @ [(strip kid, expanduser (strip path))])))"

definition parse_keyring :: "(string \<Rightarrow> string) \<Rightarrow> config \<Rightarrow> key_entry list" where
  "parse_keyring expanduser cfg =
     (if SF_KEYS cfg \<noteq> [] then parse_parts expanduser (split_on CHR '','' (SF_KEYS cfg)) []
      else if SF_PRIVATE_KEY_PATH cfg \<noteq> [] then [(''default'', expanduser (SF_PRIVATE_KEY_PATH cfg))]
      else [])"

definition audience_from_domain :: "string \<Rightarrow> string" where
  "audience_from_domain domain =
     (if domain \<in> set [''login'', ''test''] then ''https://'' @ domain @ ''.salesforce.com''
      else ''https://'' @ domain)"

subsection \<open>The preference snapshot\<close>

text \<open>
  The snapshot file as \<open>load_keymap\<close> finds it: \<open>Unavailable e\<close> when \<open>open\<close> or \<open>json.load\<close>
  raises \<open>e\<close> (a missing file: FileNotFoundError; an unreadable one: PermissionError,
  IsADirectoryError, UnicodeDecodeError; malformed JSON: JSONDecodeError), \<open>Parsed v\<close>
  when \<open>json.load\<close> returns \<open>v\<close>.
\<close>

datatype snapshot = Unavailable py_exc | Parsed json

text \<open>The body of the \<open>try\<close> in \<open>load_keymap\<close>.\<close>

fun open_json_load :: "snapshot \<Rightarrow> py_exc + json" where
  "open_json_load (Unavailable e) = Inl e"
| "open_json_load (Parsed v) = Inr v"

definition load_keymap :: "snapshot \<Rightarrow> json" where
  "load_keymap file = (case open_json_load file of Inl e \<Rightarrow> JObj [] | Inr v \<Rightarrow> v)"

text \<open>
  What can go wrong in \<open>save_keymap\<close>: \<open>mkdir\<close> raises, \<open>open(KEYMAP_PATH, "w")\<close> raises,
  or \<open>json.dump\<close> raises after the file was opened for writing (and so truncated).
\<close>

datatype write_fault = MkdirFails py_exc | OpenFails py_exc | DumpFails py_exc

text \<open>
  The body of the \<open>try\<close> in \<open>save_keymap\<close>: the exception raised, if any, and the file
  left behind. A complete dump is read back by \<open>json.load\<close> as the value written; a
  truncated one is not JSON.
\<close>

fun mkdir_open_dump :: "write_fault option \<Rightarrow> json \<Rightarrow> snapshot \<Rightarrow> py_exc option \<times> snapshot" where
  "mkdir_open_dump None m file = (None, Parsed m)"
| "mkdir_open_dump (Some (MkdirFails e)) m file = (Some e, file)"
| "mkdir_open_dump (Some (OpenFails e)) m file = (Some e, file)"
| "mkdir_open_dump (Some (DumpFails e)) m file =
     (Some e, Unavailable (Exc ''JSONDecodeError'' ''Expecting value''))"

text \<open>\<open>except Exception: pass\<close>: the exception is dropped, the file is what it is.\<close>

definition save_keymap :: "write_fault option \<Rightarrow> json \<Rightarrow> snapshot \<Rightarrow> snapshot" where
  "save_keymap fault m file = (case mkdir_open_dump fault m file of (raised, file') \<Rightarrow> file')"

subsection \<open>The outside world\<close>

record jwt_payload =
  iss :: string
  sub :: string
  aud :: string
  exp :: int

record response =
  ok :: bool
  status_code :: int
  resp_text :: string
  resp_json :: "py_exc + json"

text \<open>
  The library and system calls of the loop body, each indexed by the iteration (from 0)
  that makes it: reading the key file, \<open>int(time.time())\<close>, \<open>jwt.encode\<close> (payload, key,
  \<open>kid\<close> header), \<open>requests.post\<close> (URL, form data), the fault of the snapshot write if
  there is one.
\<close>

record world =
  expanduser :: "string \<Rightarrow> string"
  read_key :: "nat \<Rightarrow> string \<Rightarrow> py_exc + string"
  time_time :: "nat \<Rightarrow> int"
  jwt_encode :: "nat \<Rightarrow> jwt_payload \<Rightarrow> string \<Rightarrow> string \<Rightarrow> py_exc + string"
  requests_post :: "nat \<Rightarrow> string \<Rightarrow> (string \<times> string) list \<Rightarrow> py_exc + response"
  write_fault :: "nat \<Rightarrow> write_fault option"

text \<open>
  The effects of a call, in order: the snapshot is read, a candidate's iteration starts
  (its key file is opened), a token request is posted, \<open>save_keymap\<close> is called.
\<close>

datatype event =
    Load
  | Candidate string string
  | Post string string
  | Save json

record state =
  keymap_file :: snapshot
  trace :: "event list"

definition log_event :: "event \<Rightarrow> state \<Rightarrow> state" where
  "log_event e st = st\<lparr>trace := trace st @ [e]\<rparr>"

subsection \<open>Token acquisition\<close>

text \<open>\<open>keymap.get(TENANT_ID)\<close> on a dict: the value, or \<open>None\<close>.\<close>

definition preferred_kid :: "(string \<times> json) list \<Rightarrow> string \<Rightarrow> json" where
  "preferred_kid keymap tenant = (case map_of keymap tenant of None \<Rightarrow> JNull | Some v \<Rightarrow> v)"

text \<open>Lines 85 to 89: \<open>ordered\<close>.\<close>

definition attempt_order :: "key_entry list \<Rightarrow> json \<Rightarrow> key_entry list" where
  "attempt_order keyring preferred =
     (if truthy preferred
      then filter (\<lambda>pair. JStr (fst pair) = preferred) keyring
         @ filter (\<lambda>pair. JStr (fst pair) \<noteq> preferred) keyring
      else keyring)"

text \<open>
  Lines 94 to 105: the key file is read and the assertion is signed; the result is the
  assertion, or the exception raised on the way.
\<close>

definition sign_assertion :: "world \<Rightarrow> config \<Rightarrow> string \<Rightarrow> nat \<Rightarrow> key_entry \<Rightarrow> py_exc + string" where
  "sign_assertion w cfg aud_url i c =
     (case c of (kid, key_path) \<Rightarrow>
        (case read_key w i key_path of
           Inl e \<Rightarrow> Inl e
         | Inr private_key \<Rightarrow>
             (let now = time_time w i;
                  payload = \<lparr> iss = SF_CLIENT_ID cfg, sub = SF_JWT_USERNAME cfg,
                              aud = aud_url, exp = now + 180 \<rparr>
              in jwt_encode w i payload private_key kid)))"

definition token_url :: "string \<Rightarrow> string" where
  "token_url aud_url = aud_url @ ''/services/oauth2/token''"

text \<open>Lines 107 to 114: the request to the token endpoint.\<close>

definition post_assertion :: "world \<Rightarrow> string \<Rightarrow> nat \<Rightarrow> string \<Rightarrow> py_exc + response" where
  "post_assertion w aud_url i assertion =
     requests_post w i (token_url aud_url)
       [(''grant_type'', ''urn:ietf:params:oauth:grant-type:jwt-bearer''),
        (''assertion'', assertion)]"

text \<open>
  Lines 117 to 121, taken when \<open>resp.ok\<close>: \<open>resp.json()\<close>, the update of \<open>keymap\<close>, the
  save, and the two subscripts of the \<open>return\<close>. An exception at any of them is caught
  by the \<open>except\<close> of line 124, after whatever was done before it.
\<close>

datatype step = Done json json | Failed last_err

definition accept_response ::
  "world \<Rightarrow> config \<Rightarrow> nat \<Rightarrow> string \<Rightarrow> response \<Rightarrow> (string \<times> json) list \<Rightarrow> state
     \<Rightarrow> step \<times> (string \<times> json) list \<times> state" where
  "accept_response w cfg i kid resp keymap st =
     (case resp_json resp of
        Inl e \<Rightarrow> (Failed (err_of_exc e), keymap, st)
      | Inr tok \<Rightarrow>
          (let keymap' = AList.update (TENANT_ID cfg) (JStr kid) keymap;
               st' = (log_event (Save (JObj keymap')) st)
                       \<lparr>keymap_file := save_keymap (write_fault w i) (JObj keymap') (keymap_file st)\<rparr>
           in
           (case subscript tok ''access_token'' of
              Inl e \<Rightarrow> (Failed (err_of_exc e), keymap', st')
            | Inr access_token \<Rightarrow>
                (case subscript tok ''instance_url'' of
                   Inl e \<Rightarrow> (Failed (err_of_exc e), keymap', st')
                 | Inr instance_url \<Rightarrow> (Done access_token instance_url, keymap', st')))))"

text \<open>
  One iteration of the loop (lines 93 to 125): it returns from the function, or it
  records an error; \<open>keymap\<close> and the state are as the iteration leaves them.
\<close>

definition attempt ::
  "world \<Rightarrow> config \<Rightarrow> string \<Rightarrow> nat \<Rightarrow> key_entry \<Rightarrow> (string \<times> json) list \<Rightarrow> state
     \<Rightarrow> step \<times> (string \<times> json) list \<times> state" where
  "attempt w cfg aud_url i c keymap st =
     (let st1 = log_event (Candidate (fst c) (snd c)) st in
      (case sign_assertion w cfg aud_url i c of
         Inl e \<Rightarrow> (Failed (err_of_exc e), keymap, st1)
       | Inr assertion \<Rightarrow>
           (let st2 = log_event (Post (token_url aud_url) assertion) st1 in
            (case post_assertion w aud_url i assertion of
               Inl e \<Rightarrow> (Failed (err_of_exc e), keymap, st2)
             | Inr resp \<Rightarrow>
                 (if ok resp then accept_response w cfg i (fst c) resp keymap st2
                  else (Failed (HttpErr (status_code resp) (resp_text resp)), keymap, st2))))))"

text \<open>The message of the RuntimeError of line 128.\<close>

definition exhausted_message :: "config \<Rightarrow> last_err \<Rightarrow> string" where
  "exhausted_message cfg le =
     ''JWT exchange failed for tenant='' @ quoted (TENANT_ID cfg) @ ''. Last error: ''
       @ str_last_err le"

text \<open>The \<open>for kid, key_path in ordered\<close> loop and the \<open>raise\<close> after it.\<close>

fun try_keys ::
  "world \<Rightarrow> config \<Rightarrow> string \<Rightarrow> nat \<Rightarrow> key_entry list \<Rightarrow> (string \<times> json) list \<Rightarrow> last_err \<Rightarrow> state
     \<Rightarrow> outcome \<times> state" where
  "try_keys w cfg aud_url i [] keymap le st =
     (Raised (Exc ''RuntimeError'' (exhausted_message cfg le)), st)"
| "try_keys w cfg aud_url i (c # rest) keymap le st =
     (case attempt w cfg aud_url i c keymap st of
        (Done access_token instance_url, keymap', st') \<Rightarrow> (Returned access_token instance_url, st')
      | (Failed e, keymap', st') \<Rightarrow> try_keys w cfg aud_url (Suc i) rest keymap' e st')"

definition get_access_token_via_jwt :: "world \<Rightarrow> config \<Rightarrow> state \<Rightarrow> outcome \<times> state" where
  "get_access_token_via_jwt w cfg st =
     (let aud_url = audience_from_domain (SF_DOMAIN cfg);
          keyring = parse_keyring (expanduser w) cfg
      in
      if keyring = [] then (SysExit ''No keys found. Set SF_KEYS or SF_PRIVATE_KEY_PATH.'', st)
      else
        let st = log_event Load st in
        case load_keymap (keymap_file st) of
          JObj keymap \<Rightarrow>
            try_keys w cfg aud_url 0
              (attempt_order keyring (preferred_kid keymap (TENANT_ID cfg))) keymap NoErr st
        | v \<Rightarrow>
            (Raised (Exc ''AttributeError''
               (quoted (py_type_name v) @ '' object has no attribute '' @ quoted ''get'')), st))"

text \<open>
  The script from its first line to the first statement of \<open>main()\<close>: the settings are
  read, the module-level checks run, the token is acquired. What \<open>main()\<close> does with
  the pair afterwards is outside this development.
\<close>

definition script :: "world \<Rightarrow> (string \<rightharpoonup> string) \<Rightarrow> snapshot \<Rightarrow> outcome \<times> state" where
  "script w environ file =
     (let cfg = read_config (expanduser w) environ;
          st = \<lparr> keymap_file = file, trace = [] \<rparr>
      in
      case module_checks cfg of
        Some msg \<Rightarrow> (SysExit msg, st)
      | None \<Rightarrow> get_access_token_via_jwt w cfg st)"

subsection \<open>Notions the properties are stated in\<close>

text \<open>
  An entry of the specification string split as the loop body splits it: at the first
  colon, both sides trimmed.
\<close>

definition split_trimmed :: "string \<Rightarrow> key_entry" where
  "split_trimmed part =
     (case split_first CHR '':'' (strip part) of (kid, path) \<Rightarrow> (strip kid, strip path))"

text \<open>The ring entry the loop body appends for it (line 64).\<close>

definition entry_of :: "(string \<Rightarrow> string) \<Rightarrow> string \<Rightarrow> key_entry" where
  "entry_of ex part = (case split_trimmed part of (kid, path) \<Rightarrow> (kid, ex path))"

text \<open>The candidates whose iteration started, the requests posted, the records saved.\<close>

fun candidates_tried :: "event list \<Rightarrow> key_entry list" where
  "candidates_tried [] = []"
| "candidates_tried (Candidate kid path # es) = (kid, path) # candidates_tried es"
| "candidates_tried (e # es) = candidates_tried es"

fun posted :: "event list \<Rightarrow> (string \<times> string) list" where
  "posted [] = []"
| "posted (Post url assertion # es) = (url, assertion) # posted es"
| "posted (e # es) = posted es"

fun saved :: "event list \<Rightarrow> json list" where
  "saved [] = []"
| "saved (Save m # es) = m # saved es"
| "saved (e # es) = saved es"

text \<open>
  The error the loop records for a candidate, if its iteration does not return: the
  exception raised while the key is read or the assertion signed (line 124), the one
  raised by the request, the status and body of a non-success answer (line 123), or,
  after a success status, the exception raised by \<open>resp.json()\<close> or by one of the two
  subscripts of the \<open>return\<close> (line 124 again). A candidate fails when there is one.
\<close>

definition failure_of :: "world \<Rightarrow> config \<Rightarrow> string \<Rightarrow> nat \<Rightarrow> key_entry \<Rightarrow> last_err option" where
  "failure_of w cfg aud_url i c =
     (case sign_assertion w cfg aud_url i c of
        Inl e \<Rightarrow> Some (err_of_exc e)
      | Inr assertion \<Rightarrow>
          (case post_assertion w aud_url i assertion of
             Inl e \<Rightarrow> Some (err_of_exc e)
           | Inr resp \<Rightarrow>
               (if ok resp then
                  (case resp_json resp of
                     Inl e \<Rightarrow> Some (err_of_exc e)
                   | Inr tok \<Rightarrow>
                       (case subscript tok ''access_token'' of
                          Inl e \<Rightarrow> Some (err_of_exc e)
                        | Inr access_token \<Rightarrow>
                            (case subscript tok ''instance_url'' of
                               Inl e \<Rightarrow> Some (err_of_exc e)
                             | Inr instance_url \<Rightarrow> None)))
                else Some (HttpErr (status_code resp) (resp_text resp)))))"

definition candidate_fails :: "world \<Rightarrow> config \<Rightarrow> string \<Rightarrow> nat \<Rightarrow> key_entry \<Rightarrow> bool" where
  "candidate_fails w cfg aud_url i c = (failure_of w cfg aud_url i c \<noteq> None)"

text \<open>
  The iteration of a candidate reaches lines 119 and 120, where the record is updated
  and saved: the assertion is signed, the provider answers with a success status, and
  \<open>resp.json()\<close> returns.
\<close>

definition reaches_save :: "world \<Rightarrow> config \<Rightarrow> string \<Rightarrow> nat \<Rightarrow> key_entry \<Rightarrow> bool" where
  "reaches_save w cfg aud_url i c =
     (case sign_assertion w cfg aud_url i c of
        Inl e \<Rightarrow> False
      | Inr assertion \<Rightarrow>
          (case post_assertion w aud_url i assertion of
             Inl e \<Rightarrow> False
           | Inr resp \<Rightarrow>
               ok resp \<and> (case resp_json resp of Inl e \<Rightarrow> False | Inr tok \<Rightarrow> True)))"

text \<open>
  A candidate's exchange succeeds: the assertion is signed, the provider answers with a
  success status, and the body is a JSON object holding \<open>access_token\<close> and
  \<open>instance_url\<close>; the result is that pair.
\<close>

definition candidate_grant :: "world \<Rightarrow> config \<Rightarrow> string \<Rightarrow> nat \<Rightarrow> key_entry \<Rightarrow> (json \<times> json) option" where
  "candidate_grant w cfg aud_url i c =
     (case sign_assertion w cfg aud_url i c of
        Inl e \<Rightarrow> None
      | Inr assertion \<Rightarrow>
          (case post_assertion w aud_url i assertion of
             Inl e \<Rightarrow> None
           | Inr resp \<Rightarrow>
               (if ok resp then
                  (case resp_json resp of
                     Inl e \<Rightarrow> None
                   | Inr (JObj kvs) \<Rightarrow>
                       (case (map_of kvs ''access_token'', map_of kvs ''instance_url'') of
                          (Some access_token, Some instance_url) \<Rightarrow> Some (access_token, instance_url)
                        | _ \<Rightarrow> None)
                   | Inr v \<Rightarrow> None)
                else None)))"

text \<open>
  An entry is moved to the front of the ring: it comes first, and the other entries
  follow in the order they have in the ring.
\<close>

definition moved_to_front :: "key_entry \<Rightarrow> key_entry list \<Rightarrow> key_entry list \<Rightarrow> bool" where
  "moved_to_front e ring ordered = (ordered = e # remove1 e ring)"

subsection \<open>Sample inputs\<close>

text \<open>
  \<open>os.path.expanduser\<close> where the home directory is \<open>/home/u\<close>, on paths that do not
  name another user: a leading \<open>~\<close> is replaced, any other path is returned as it is.
\<close>

definition expand_home :: "string \<Rightarrow> string" where
  "expand_home path =
     (if path = ''~'' \<or> take 2 path = ''~/'' then ''/home/u'' @ drop 1 path else path)"

definition sample_config :: config where
  "sample_config =
     \<lparr> SF_CLIENT_ID = ''3MVG9'', SF_JWT_USERNAME = ''ops@example.com'', SF_DOMAIN = ''login'',
       SF_PRIVATE_KEY_PATH = [], SF_KEYS = ''A:/a,B:/b,C:/c'', TENANT_ID = ''default'',
       KEYMAP_PATH = ''/home/u/.sf_kpi_keymap.json'' \<rparr>"

definition granted_response :: response where
  "granted_response =
     \<lparr> ok = True, status_code = 200, resp_text = ''token'',
       resp_json = Inr (JObj [(''access_token'', JStr ''00D''),
                              (''instance_url'', JStr ''https://na1.salesforce.com'')]) \<rparr>"

definition rejected_response :: response where
  "rejected_response =
     \<lparr> ok = False, status_code = 400, resp_text = ''invalid_grant'',
       resp_json = Inr (JObj [(''error'', JStr ''invalid_grant'')]) \<rparr>"

text \<open>A success status with a JSON body that holds no token.\<close>

definition tokenless_response :: response where
  "tokenless_response =
     \<lparr> ok = True, status_code = 200, resp_text = ''{}'', resp_json = Inr (JObj []) \<rparr>"

text \<open>
  A world in which every key file is readable (its content stands for its path), every
  key signs (the assertion stands for the key), the provider accepts exactly the
  assertion signed with the key at \<open>good_path\<close>, and the disk takes every write.
\<close>

definition sample_world :: "string \<Rightarrow> world" where
  "sample_world good_path =
     \<lparr> expanduser = expand_home,
       read_key = (\<lambda>i path. Inr path),
       time_time = (\<lambda>i. 1700000000),
       jwt_encode = (\<lambda>i payload private_key kid. Inr private_key),
       requests_post = (\<lambda>i url form.
          if map_of form ''assertion'' = Some good_path then Inr granted_response
          else Inr rejected_response),
       write_fault = (\<lambda>i. None) \<rparr>"

text \<open>
  The same world, except that the provider answers every other assertion with a success
  status and a body without token.
\<close>

definition tokenless_world :: "string \<Rightarrow> world" where
  "tokenless_world good_path =
     (sample_world good_path)
       \<lparr> requests_post := (\<lambda>i url form.
            if map_of form ''assertion'' = Some good_path then Inr granted_response
            else Inr tokenless_response) \<rparr>"

text \<open>A disk that refuses every write of the snapshot: \<open>open(KEYMAP_PATH, "w")\<close> raises.\<close>

definition read_only_disk :: "nat \<Rightarrow> write_fault option" where
  "read_only_disk i = Some (OpenFails (Exc ''PermissionError'' ''Permission denied''))"

text \<open>The state before the first run: no snapshot file yet.\<close>

definition fresh_state :: state where
  "fresh_state =
     \<lparr> keymap_file = Unavailable (Exc ''FileNotFoundError'' ''No such file or directory''),
       trace = [] \<rparr>"

section \<open>Properties\<close>

subsection \<open>Strings and parsing\<close>

lemma in_dropWhile: "x \<in> set xs \<Longrightarrow> \<not> P x \<Longrightarrow> x \<in> set (dropWhile P xs)"
  by (induction xs) auto

lemma strip_subset: "set (strip s) \<subseteq> set s"
  by (auto simp: strip_def dest!: set_dropWhileD)

lemma strip_keeps: "c \<in> set s \<Longrightarrow> \<not> py_isspace c \<Longrightarrow> c \<in> set (strip s)"
  unfolding strip_def by (simp add: in_dropWhile)

lemma colon_not_space: "\<not> py_isspace CHR '':''"
  by (simp add: py_isspace_def)

lemma colon_strip: "CHR '':'' \<in> set (strip s) \<longleftrightarrow> CHR '':'' \<in> set s"
  using strip_subset strip_keeps colon_not_space by blast

text \<open>\<open>strip\<close> removes whitespace at both ends and nothing else.\<close>

lemma strip_shape:
  "\<exists>l r. s = l @ strip s @ r \<and> (\<forall>c\<in>set l. py_isspace c) \<and> (\<forall>c\<in>set r. py_isspace c)"
proof -
  let ?d = "dropWhile py_isspace s"
  have 1: "s = takeWhile py_isspace s @ ?d" by simp
  have 2: "rev ?d = takeWhile py_isspace (rev ?d) @ dropWhile py_isspace (rev ?d)" by simp
  have "?d = rev (dropWhile py_isspace (rev ?d)) @ rev (takeWhile py_isspace (rev ?d))"
    by (metis 2 rev_append rev_rev_ident)
  then have "s = takeWhile py_isspace s @ strip s @ rev (takeWhile py_isspace (rev ?d))"
    unfolding strip_def using 1 by metis
  moreover have "\<forall>c\<in>set (takeWhile py_isspace s). py_isspace c" by (meson set_takeWhileD)
  moreover have "\<forall>c\<in>set (rev (takeWhile py_isspace (rev ?d))). py_isspace c"
    using set_takeWhileD by fastforce
  ultimately show ?thesis by blast
qed

lemma strip_ends:
  "strip s \<noteq> [] \<Longrightarrow> \<not> py_isspace (hd (strip s)) \<and> \<not> py_isspace (last (strip s))"
proof -
  assume ne: "strip s \<noteq> []"
  let ?d = "dropWhile py_isspace s"
  let ?e = "dropWhile py_isspace (rev ?d)"
  have e: "?e \<noteq> []" using ne by (simp add: strip_def)
  then have h: "\<not> py_isspace (hd ?e)" by (rule hd_dropWhile)
  have l: "last (strip s) = hd ?e" using e by (simp add: strip_def last_rev)
  have "?d \<noteq> []"
  proof
    assume "?d = []"
    then have "?e = []" by (simp only: rev.simps dropWhile.simps)
    with e show False by blast
  qed
  then have hd_d: "\<not> py_isspace (hd ?d)" by (rule hd_dropWhile)
  have "rev ?d = takeWhile py_isspace (rev ?d) @ ?e" by simp
  then have "?d = rev ?e @ rev (takeWhile py_isspace (rev ?d))" by (metis rev_append rev_rev_ident)
  then have "hd ?d = hd (rev ?e)" using e by (metis hd_append2 rev_is_Nil_conv)
  then show ?thesis using h l hd_d by (simp add: strip_def)
qed

text \<open>\<open>split_first\<close> cuts at the first occurrence of the separator.\<close>

lemma split_first_parts:
  "sep \<in> set s \<Longrightarrow>
     s = fst (split_first sep s) @ sep # snd (split_first sep s)
     \<and> sep \<notin> set (fst (split_first sep s))"
proof (induction s)
  case Nil then show ?case by simp
next
  case (Cons c cs)
  then show ?case by (cases "c = sep") (auto simp: split_first_def)
qed

text \<open>The loop of \<open>parse_keyring\<close> appends one entry for each part that has a colon.\<close>

lemma parse_parts_acc:
  "parse_parts ex ps keys = keys @ map (entry_of ex) (filter (\<lambda>p. CHR '':'' \<in> set p) ps)"
proof (induction ps arbitrary: keys)
  case Nil
  then show ?case by simp
next
  case (Cons p ps)
  show ?case
  proof (cases "CHR '':'' \<in> set p")
    case True
    then have "CHR '':'' \<in> set (strip p)" by (simp add: colon_strip)
    moreover from this have "strip p \<noteq> []" by auto
    ultimately show ?thesis using True Cons.IH
      by (simp add: entry_of_def split_trimmed_def Let_def split: prod.splits)
  next
    case False
    then have "CHR '':'' \<notin> set (strip p)" by (simp add: colon_strip)
    then show ?thesis using False Cons.IH by (simp add: Let_def)
  qed
qed

subsection \<open>One iteration, and the loop\<close>

lemma candidates_tried_append: "candidates_tried (xs @ ys) = candidates_tried xs @ candidates_tried ys"
  by (induction xs rule: candidates_tried.induct) simp_all

lemma saved_append: "saved (xs @ ys) = saved xs @ saved ys"
  by (induction xs rule: saved.induct) simp_all

lemma posted_append: "posted (xs @ ys) = posted xs @ posted ys"
  by (induction xs rule: posted.induct) simp_all

lemma subscript_Inr: "subscript tok k = Inr v \<longleftrightarrow> (\<exists>kvs. tok = JObj kvs \<and> map_of kvs k = Some v)"
  by (cases tok) (auto split: option.splits)

text \<open>The three ways an iteration can go.\<close>

lemma attempt_cases:
  fixes w cfg aud_url i c keymap st
  defines "km' \<equiv> AList.update (TENANT_ID cfg) (JStr (fst c)) keymap"
  shows
    "(\<exists>t h assertion. candidate_grant w cfg aud_url i c = Some (t, h)
        \<and> attempt w cfg aud_url i c keymap st =
            (Done t h, km',
             st\<lparr>trace := trace st @ [Candidate (fst c) (snd c), Post (token_url aud_url) assertion, Save (JObj km')],
                keymap_file := save_keymap (write_fault w i) (JObj km') (keymap_file st)\<rparr>))
   \<or> (\<exists>e evs. candidate_grant w cfg aud_url i c = None
        \<and> attempt w cfg aud_url i c keymap st = (Failed e, keymap, st\<lparr>trace := trace st @ evs\<rparr>)
        \<and> candidates_tried evs = [c] \<and> saved evs = [])
   \<or> (\<exists>e evs. candidate_grant w cfg aud_url i c = None
        \<and> attempt w cfg aud_url i c keymap st =
            (Failed e, km',
             st\<lparr>trace := trace st @ evs,
                keymap_file := save_keymap (write_fault w i) (JObj km') (keymap_file st)\<rparr>)
        \<and> candidates_tried evs = [c] \<and> saved evs = [JObj km'])"
proof (cases "sign_assertion w cfg aud_url i c")
  case (Inl e)
  then show ?thesis
    by (intro disjI2 disjI1 exI[of _ "err_of_exc e"] exI[of _ "[Candidate (fst c) (snd c)]"])
       (simp add: attempt_def candidate_grant_def log_event_def)
next
  case (Inr assertion)
  note sg = this
  let ?evs = "[Candidate (fst c) (snd c), Post (token_url aud_url) assertion]"
  show ?thesis
  proof (cases "post_assertion w aud_url i assertion")
    case (Inl e)
    then show ?thesis using sg
      by (intro disjI2 disjI1 exI[of _ "err_of_exc e"] exI[of _ ?evs])
         (simp add: attempt_def candidate_grant_def log_event_def)
  next
    case (Inr resp)
    note ps = this
    show ?thesis
    proof (cases "ok resp")
      case False
      then show ?thesis using sg ps
        by (intro disjI2 disjI1 exI[of _ "HttpErr (status_code resp) (resp_text resp)"] exI[of _ ?evs])
           (simp add: attempt_def candidate_grant_def log_event_def)
    next
      case True
      note okr = this
      show ?thesis
      proof (cases "resp_json resp")
        case (Inl e)
        then show ?thesis using sg ps okr
          by (intro disjI2 disjI1 exI[of _ "err_of_exc e"] exI[of _ ?evs])
             (simp add: attempt_def candidate_grant_def log_event_def accept_response_def)
      next
        case (Inr tok)
        note js = this
        let ?evs3 = "?evs @ [Save (JObj km')]"
        have att: "attempt w cfg aud_url i c keymap st =
           (case subscript tok ''access_token'' of
              Inl e \<Rightarrow> (Failed (err_of_exc e), km',
                 st\<lparr>trace := trace st @ ?evs3,
                    keymap_file := save_keymap (write_fault w i) (JObj km') (keymap_file st)\<rparr>)
            | Inr t \<Rightarrow>
                (case subscript tok ''instance_url'' of
                   Inl e \<Rightarrow> (Failed (err_of_exc e), km',
                      st\<lparr>trace := trace st @ ?evs3,
                         keymap_file := save_keymap (write_fault w i) (JObj km') (keymap_file st)\<rparr>)
                 | Inr h \<Rightarrow> (Done t h, km',
                      st\<lparr>trace := trace st @ ?evs3,
                         keymap_file := save_keymap (write_fault w i) (JObj km') (keymap_file st)\<rparr>)))"
          using sg ps okr js
          by (simp add: attempt_def log_event_def accept_response_def km'_def Let_def
                split: sum.splits)
        show ?thesis
        proof (cases "subscript tok ''access_token''")
          case (Inl e)
          then have "candidate_grant w cfg aud_url i c = None"
            using sg ps okr js
            by (cases tok) (auto simp: candidate_grant_def split: option.splits)
          then show ?thesis using att Inl
            by (intro disjI2 exI[of _ "err_of_exc e"] exI[of _ ?evs3]) simp
        next
          case (Inr t)
          note at = this
          show ?thesis
          proof (cases "subscript tok ''instance_url''")
            case (Inl e)
            then have "candidate_grant w cfg aud_url i c = None"
              using sg ps okr js
              by (cases tok) (auto simp: candidate_grant_def split: option.splits)
            then show ?thesis using att at Inl
              by (intro disjI2 exI[of _ "err_of_exc e"] exI[of _ ?evs3]) simp
          next
            case (Inr h)
            then have "candidate_grant w cfg aud_url i c = Some (t, h)"
              using sg ps okr js at
              by (auto simp: candidate_grant_def subscript_Inr)
            then show ?thesis using att at Inr
              by (intro disjI1 exI[of _ t] exI[of _ h] exI[of _ assertion]) simp
          qed
        qed
      qed
    qed
  qed
qed


text \<open>A failing iteration: what it records, and what it leaves behind.\<close>

lemma attempt_fails:
  assumes "failure_of w cfg aud_url i c = Some e"
  shows "\<exists>km' st'. attempt w cfg aud_url i c keymap st = (Failed e, km', st')
          \<and> (\<exists>evs. trace st' = trace st @ evs \<and> candidates_tried evs = [c]
                \<and> (\<not> reaches_save w cfg aud_url i c \<longrightarrow> saved evs = []))
          \<and> (\<not> reaches_save w cfg aud_url i c \<longrightarrow> keymap_file st' = keymap_file st)"
proof (cases "sign_assertion w cfg aud_url i c")
  case (Inl x)
  then show ?thesis using assms
    by (simp add: failure_of_def reaches_save_def attempt_def log_event_def)
next
  case sg: (Inr assertion)
  show ?thesis
  proof (cases "post_assertion w aud_url i assertion")
    case (Inl x)
    then show ?thesis using assms sg
      by (simp add: failure_of_def reaches_save_def attempt_def log_event_def)
  next
    case ps: (Inr resp)
    show ?thesis
    proof (cases "ok resp")
      case False
      then show ?thesis using assms sg ps
        by (simp add: failure_of_def reaches_save_def attempt_def log_event_def)
    next
      case okr: True
      show ?thesis
      proof (cases "resp_json resp")
        case (Inl x)
        then show ?thesis using assms sg ps okr
          by (simp add: failure_of_def reaches_save_def attempt_def log_event_def
                accept_response_def)
      next
        case js: (Inr tok)
        then show ?thesis using assms sg ps okr
          by (cases "subscript tok ''access_token''"; cases "subscript tok ''instance_url''")
             (simp_all add: failure_of_def reaches_save_def attempt_def log_event_def
                accept_response_def Let_def)
      qed
    qed
  qed
qed

lemma try_keys_all_fail:
  assumes "\<forall>j<length cs. candidate_fails w cfg aud_url (i + j) (cs ! j)"
  shows "\<exists>e st'. (if cs = [] then e = le
                  else failure_of w cfg aud_url (i + length cs - 1) (last cs) = Some e)
          \<and> try_keys w cfg aud_url i cs keymap le st =
               (Raised (Exc ''RuntimeError'' (exhausted_message cfg e)), st')
          \<and> (\<exists>evs. trace st' = trace st @ evs \<and> candidates_tried evs = cs
                \<and> ((\<forall>j<length cs. \<not> reaches_save w cfg aud_url (i + j) (cs ! j)) \<longrightarrow> saved evs = []))
          \<and> ((\<forall>j<length cs. \<not> reaches_save w cfg aud_url (i + j) (cs ! j)) \<longrightarrow>
                keymap_file st' = keymap_file st)"
  using assms
proof (induction cs arbitrary: i keymap le st)
  case Nil
  show ?case by simp
next
  case (Cons c cs)
  from Cons.prems have "candidate_fails w cfg aud_url i c" by force
  then obtain e1 where f1: "failure_of w cfg aud_url i c = Some e1"
    by (auto simp: candidate_fails_def)
  from Cons.prems have rest: "\<forall>j<length cs. candidate_fails w cfg aud_url (Suc i + j) (cs ! j)"
    by force
  from attempt_fails[OF f1, of keymap st] obtain km1 st1 evs1 where
    a: "attempt w cfg aud_url i c keymap st = (Failed e1, km1, st1)"
    and t1: "trace st1 = trace st @ evs1" and c1: "candidates_tried evs1 = [c]"
    and s1: "\<not> reaches_save w cfg aud_url i c \<longrightarrow> saved evs1 = []"
    and k1: "\<not> reaches_save w cfg aud_url i c \<longrightarrow> keymap_file st1 = keymap_file st"
    by blast
  from Cons.IH[OF rest, of e1 km1 st1] obtain e st' evs2 where
    e: "if cs = [] then e = e1
        else failure_of w cfg aud_url (Suc i + length cs - 1) (last cs) = Some e"
    and r: "try_keys w cfg aud_url (Suc i) cs km1 e1 st1 =
              (Raised (Exc ''RuntimeError'' (exhausted_message cfg e)), st')"
    and t2: "trace st' = trace st1 @ evs2" and c2: "candidates_tried evs2 = cs"
    and s2: "(\<forall>j<length cs. \<not> reaches_save w cfg aud_url (Suc i + j) (cs ! j)) \<longrightarrow> saved evs2 = []"
    and k2: "(\<forall>j<length cs. \<not> reaches_save w cfg aud_url (Suc i + j) (cs ! j)) \<longrightarrow>
               keymap_file st' = keymap_file st1"
    by blast
  have e': "failure_of w cfg aud_url (i + length (c # cs) - 1) (last (c # cs)) = Some e"
    using e f1 by (cases "cs = []") simp_all
  have run: "try_keys w cfg aud_url i (c # cs) keymap le st =
               (Raised (Exc ''RuntimeError'' (exhausted_message cfg e)), st')"
    using a r by simp
  have none: "\<not> reaches_save w cfg aud_url i c
            \<and> (\<forall>j<length cs. \<not> reaches_save w cfg aud_url (Suc i + j) (cs ! j))"
    if "\<forall>j<length (c # cs). \<not> reaches_save w cfg aud_url (i + j) ((c # cs) ! j)"
    using that by force
  have tr: "trace st' = trace st @ (evs1 @ evs2)" using t1 t2 by simp
  have ct: "candidates_tried (evs1 @ evs2) = c # cs"
    using c1 c2 by (simp add: candidates_tried_append)
  have sv: "saved (evs1 @ evs2) = []"
    if "\<forall>j<length (c # cs). \<not> reaches_save w cfg aud_url (i + j) ((c # cs) ! j)"
    using none[OF that] s1 s2 by (simp add: saved_append)
  have kf: "keymap_file st' = keymap_file st"
    if "\<forall>j<length (c # cs). \<not> reaches_save w cfg aud_url (i + j) ((c # cs) ! j)"
    using none[OF that] k1 k2 by simp
  have ex: "\<exists>evs. trace st' = trace st @ evs \<and> candidates_tried evs = c # cs
                \<and> ((\<forall>j<length (c # cs). \<not> reaches_save w cfg aud_url (i + j) ((c # cs) ! j))
                     \<longrightarrow> saved evs = [])"
    using tr ct sv by (intro exI[of _ "evs1 @ evs2"]) blast
  show ?case
    apply (intro exI[of _ e] exI[of _ st'] conjI)
    subgoal using e' by simp
    subgoal by (rule run)
    subgoal by (rule ex)
    subgoal using kf by blast
    done
qed


lemma attempt_step:
  assumes inv: "keymap = km0 \<or> (\<exists>k. keymap = AList.update (TENANT_ID cfg) (JStr k) km0)"
  obtains
    (granted) t h km' st' evs where
      "candidate_grant w cfg aud_url i c = Some (t, h)"
      "attempt w cfg aud_url i c keymap st = (Done t h, km', st')"
      "trace st' = trace st @ evs" "candidates_tried evs = [c]"
      "saved evs = [JObj (AList.update (TENANT_ID cfg) (JStr (fst c)) km0)]"
      "evs \<noteq> []" "last evs = Save (JObj (AList.update (TENANT_ID cfg) (JStr (fst c)) km0))"
      "keymap_file st' = save_keymap (write_fault w i)
          (JObj (AList.update (TENANT_ID cfg) (JStr (fst c)) km0)) (keymap_file st)"
  | (failed) e km' st' evs where
      "candidate_grant w cfg aud_url i c = None"
      "attempt w cfg aud_url i c keymap st = (Failed e, km', st')"
      "km' = km0 \<or> (\<exists>k. km' = AList.update (TENANT_ID cfg) (JStr k) km0)"
      "trace st' = trace st @ evs" "candidates_tried evs = [c]"
      "set (saved evs) \<subseteq> {JObj (AList.update (TENANT_ID cfg) (JStr (fst c)) km0)}"
proof -
  have upd: "AList.update (TENANT_ID cfg) (JStr (fst c)) keymap
           = AList.update (TENANT_ID cfg) (JStr (fst c)) km0"
    using inv by auto
  from attempt_cases[of w cfg aud_url i c keymap st]
  consider
    (a) t h assertion where "candidate_grant w cfg aud_url i c = Some (t, h)"
      "attempt w cfg aud_url i c keymap st =
         (Done t h, AList.update (TENANT_ID cfg) (JStr (fst c)) keymap,
          st\<lparr>trace := trace st @ [Candidate (fst c) (snd c), Post (token_url aud_url) assertion,
                                    Save (JObj (AList.update (TENANT_ID cfg) (JStr (fst c)) keymap))],
             keymap_file := save_keymap (write_fault w i)
                (JObj (AList.update (TENANT_ID cfg) (JStr (fst c)) keymap)) (keymap_file st)\<rparr>)"
  | (b) e evs where "candidate_grant w cfg aud_url i c = None"
      "attempt w cfg aud_url i c keymap st = (Failed e, keymap, st\<lparr>trace := trace st @ evs\<rparr>)"
      "candidates_tried evs = [c]" "saved evs = []"
  | (c) e evs where "candidate_grant w cfg aud_url i c = None"
      "attempt w cfg aud_url i c keymap st =
         (Failed e, AList.update (TENANT_ID cfg) (JStr (fst c)) keymap,
          st\<lparr>trace := trace st @ evs,
             keymap_file := save_keymap (write_fault w i)
                (JObj (AList.update (TENANT_ID cfg) (JStr (fst c)) keymap)) (keymap_file st)\<rparr>)"
      "candidates_tried evs = [c]"
      "saved evs = [JObj (AList.update (TENANT_ID cfg) (JStr (fst c)) keymap)]"
    by blast
  then show thesis
  proof cases
    case a
    show thesis
      by (rule granted[where evs = "[Candidate (fst c) (snd c), Post (token_url aud_url) assertion,
              Save (JObj (AList.update (TENANT_ID cfg) (JStr (fst c)) km0))]", OF a(1) a(2)])
         (simp_all add: upd)
  next
    case b
    show thesis
      by (rule failed[where evs = evs, OF b(1) b(2) inv]) (simp_all add: b)
  next
    case c
    show thesis
      by (rule failed[where evs = evs, OF c(1) c(2)]) (auto simp: c upd)
  qed
qed

lemma try_keys_first_success:
  assumes "\<forall>j<length pre. candidate_grant w cfg aud_url (i + j) (pre ! j) = None"
    and "candidate_grant w cfg aud_url (i + length pre) c = Some (t, h)"
    and "keymap = km0 \<or> (\<exists>k. keymap = AList.update (TENANT_ID cfg) (JStr k) km0)"
  shows "\<exists>st' evs file.
           try_keys w cfg aud_url i (pre @ c # post) keymap le st = (Returned t h, st')
         \<and> trace st' = trace st @ evs \<and> candidates_tried evs = pre @ [c]
         \<and> evs \<noteq> [] \<and> last evs = Save (JObj (AList.update (TENANT_ID cfg) (JStr (fst c)) km0))
         \<and> keymap_file st' = save_keymap (write_fault w (i + length pre))
              (JObj (AList.update (TENANT_ID cfg) (JStr (fst c)) km0)) file"
  using assms
proof (induction pre arbitrary: i keymap le st)
  case Nil
  from Nil.prems(3) show ?case
  proof (cases rule: attempt_step[of keymap km0 cfg w aud_url i c st])
    case (granted t' h' km' st' evs)
    with Nil.prems(2) have th: "t' = t" "h' = h" by simp_all
    show ?thesis
      using granted th by (intro exI[of _ st'] exI[of _ evs] exI[of _ "keymap_file st"]) simp
  next
    case (failed e km' st' evs)
    with Nil.prems(2) show ?thesis by simp
  qed
next
  case (Cons p pre)
  from Cons.prems(1) have p: "candidate_grant w cfg aud_url i p = None" by force
  from Cons.prems(1) have rest: "\<forall>j<length pre. candidate_grant w cfg aud_url (Suc i + j) (pre ! j) = None"
    by force
  from Cons.prems(2) have c: "candidate_grant w cfg aud_url (Suc i + length pre) c = Some (t, h)"
    by simp
  from Cons.prems(3) show ?case
  proof (cases rule: attempt_step[of keymap km0 cfg w aud_url i p st])
    case (granted t' h' km' st' evs)
    with p show ?thesis by simp
  next
    case (failed e km' st1 evs1)
    from Cons.IH[OF rest c failed(3), of e st1] obtain st' evs2 fl where
      r: "try_keys w cfg aud_url (Suc i) (pre @ c # post) km' e st1 = (Returned t h, st')"
      and tr: "trace st' = trace st1 @ evs2" and ct: "candidates_tried evs2 = pre @ [c]"
      and ne: "evs2 \<noteq> []"
      and la: "last evs2 = Save (JObj (AList.update (TENANT_ID cfg) (JStr (fst c)) km0))"
      and fi: "keymap_file st' = save_keymap (write_fault w (Suc i + length pre))
                 (JObj (AList.update (TENANT_ID cfg) (JStr (fst c)) km0)) fl"
      by blast
    show ?thesis
      using failed r tr ct ne la fi
      by (intro exI[of _ st'] exI[of _ "evs1 @ evs2"] exI[of _ fl])
         (simp add: candidates_tried_append)
  qed
qed


lemma try_keys_run:
  assumes "keymap = km0 \<or> (\<exists>k. keymap = AList.update (TENANT_ID cfg) (JStr k) km0)"
  shows "\<exists>evs n. trace (snd (try_keys w cfg aud_url i cs keymap le st)) = trace st @ evs
         \<and> candidates_tried evs = take n cs \<and> (cs \<noteq> [] \<longrightarrow> 0 < n)
         \<and> set (saved evs) \<subseteq> (\<lambda>k. JObj (AList.update (TENANT_ID cfg) (JStr k) km0)) ` fst ` set cs
         \<and> (\<forall>t h. fst (try_keys w cfg aud_url i cs keymap le st) = Returned t h \<longrightarrow>
               0 < n \<and> n \<le> length cs \<and> evs \<noteq> []
               \<and> last evs = Save (JObj (AList.update (TENANT_ID cfg) (JStr (fst (cs ! (n - 1)))) km0)))"
  using assms
proof (induction cs arbitrary: i keymap le st)
  case Nil
  show ?case by (intro exI[of _ "[]"] exI[of _ 0]) simp
next
  case (Cons c cs)
  from Cons.prems show ?case
  proof (cases rule: attempt_step[of keymap km0 cfg w aud_url i c st])
    case (granted t h km' st' evs)
    then show ?thesis
      by (intro exI[of _ evs] exI[of _ 1]) simp
  next
    case (failed e km' st1 evs1)
    from Cons.IH[OF failed(3), of "Suc i" e st1] obtain evs2 n2 where
      tr: "trace (snd (try_keys w cfg aud_url (Suc i) cs km' e st1)) = trace st1 @ evs2"
      and ct: "candidates_tried evs2 = take n2 cs" and pos: "cs \<noteq> [] \<longrightarrow> 0 < n2"
      and sv: "set (saved evs2) \<subseteq> (\<lambda>k. JObj (AList.update (TENANT_ID cfg) (JStr k) km0)) ` fst ` set cs"
      and rt: "\<forall>t h. fst (try_keys w cfg aud_url (Suc i) cs km' e st1) = Returned t h \<longrightarrow>
               0 < n2 \<and> n2 \<le> length cs \<and> evs2 \<noteq> []
               \<and> last evs2 = Save (JObj (AList.update (TENANT_ID cfg) (JStr (fst (cs ! (n2 - 1)))) km0))"
      by blast
    have eq: "try_keys w cfg aud_url i (c # cs) keymap le st = try_keys w cfg aud_url (Suc i) cs km' e st1"
      using failed(2) by simp
    have sv1: "set (saved evs1) \<subseteq> (\<lambda>k. JObj (AList.update (TENANT_ID cfg) (JStr k) km0)) ` fst ` set (c # cs)"
      using failed(6) by auto
    have sv2: "set (saved evs2) \<subseteq> (\<lambda>k. JObj (AList.update (TENANT_ID cfg) (JStr k) km0)) ` fst ` set (c # cs)"
      using sv by auto
    have nth: "0 < n2 \<Longrightarrow> (c # cs) ! n2 = cs ! (n2 - 1)" for n2 :: nat
      by (cases n2) simp_all
    show ?thesis
      unfolding eq
      using tr ct sv1 sv2 rt failed(4,5) nth
      by (intro exI[of _ "evs1 @ evs2"] exI[of _ "Suc n2"])
         (auto simp: candidates_tried_append saved_append)
  qed
qed

lemma sign_assertion_write_fault:
  "sign_assertion (w\<lparr>write_fault := f\<rparr>) cfg aud_url i c = sign_assertion w cfg aud_url i c"
  by (cases c) (simp add: sign_assertion_def Let_def split: sum.splits)

lemma post_assertion_write_fault:
  "post_assertion (w\<lparr>write_fault := f\<rparr>) aud_url i assertion = post_assertion w aud_url i assertion"
  by (simp add: post_assertion_def)

lemma accept_response_indep:
  assumes "trace st2 = trace st1"
  shows "fst (accept_response w2 cfg i kid resp keymap st2) = fst (accept_response w cfg i kid resp keymap st1)
       \<and> fst (snd (accept_response w2 cfg i kid resp keymap st2)) = fst (snd (accept_response w cfg i kid resp keymap st1))
       \<and> trace (snd (snd (accept_response w2 cfg i kid resp keymap st2))) = trace (snd (snd (accept_response w cfg i kid resp keymap st1)))"
proof (cases "resp_json resp")
  case (Inl e)
  then show ?thesis using assms by (simp add: accept_response_def)
next
  case (Inr tok)
  then show ?thesis using assms
    by (cases "subscript tok ''access_token''"; cases "subscript tok ''instance_url''")
       (simp_all add: accept_response_def Let_def log_event_def)
qed

lemma attempt_indep:
  assumes "trace st2 = trace st1"
  shows "fst (attempt (w\<lparr>write_fault := f\<rparr>) cfg aud_url i c keymap st2) = fst (attempt w cfg aud_url i c keymap st1)
       \<and> fst (snd (attempt (w\<lparr>write_fault := f\<rparr>) cfg aud_url i c keymap st2)) = fst (snd (attempt w cfg aud_url i c keymap st1))
       \<and> trace (snd (snd (attempt (w\<lparr>write_fault := f\<rparr>) cfg aud_url i c keymap st2))) = trace (snd (snd (attempt w cfg aud_url i c keymap st1)))"
proof (cases "sign_assertion w cfg aud_url i c")
  case (Inl e)
  then show ?thesis using assms
    by (simp add: attempt_def sign_assertion_write_fault log_event_def)
next
  case sg: (Inr assertion)
  show ?thesis
  proof (cases "post_assertion w aud_url i assertion")
    case (Inl e)
    then show ?thesis using assms sg
      by (simp add: attempt_def sign_assertion_write_fault post_assertion_write_fault log_event_def)
  next
    case ps: (Inr resp)
    have tr: "trace (log_event (Post (token_url aud_url) assertion) (log_event (Candidate (fst c) (snd c)) st2))
            = trace (log_event (Post (token_url aud_url) assertion) (log_event (Candidate (fst c) (snd c)) st1))"
      using assms by (simp add: log_event_def)
    show ?thesis
    proof (cases "ok resp")
      case True
      then show ?thesis
        using sg ps accept_response_indep[OF tr, of "w\<lparr>write_fault := f\<rparr>" cfg i "fst c" resp keymap w]
        by (simp add: attempt_def sign_assertion_write_fault post_assertion_write_fault)
    next
      case False
      then show ?thesis using sg ps tr
        by (simp add: attempt_def sign_assertion_write_fault post_assertion_write_fault)
    qed
  qed
qed

lemma try_keys_indep:
  assumes "trace st2 = trace st1"
  shows "fst (try_keys (w\<lparr>write_fault := f\<rparr>) cfg aud_url i cs keymap le st2) = fst (try_keys w cfg aud_url i cs keymap le st1)
       \<and> trace (snd (try_keys (w\<lparr>write_fault := f\<rparr>) cfg aud_url i cs keymap le st2)) = trace (snd (try_keys w cfg aud_url i cs keymap le st1))"
  using assms
proof (induction cs arbitrary: i keymap le st1 st2)
  case Nil
  then show ?case by (simp add: exhausted_message_def)
next
  case (Cons c cs)
  obtain s1 k1 t1 where a1: "attempt w cfg aud_url i c keymap st1 = (s1, k1, t1)"
    by (cases "attempt w cfg aud_url i c keymap st1") auto
  obtain s2 k2 t2 where a2: "attempt (w\<lparr>write_fault := f\<rparr>) cfg aud_url i c keymap st2 = (s2, k2, t2)"
    by (cases "attempt (w\<lparr>write_fault := f\<rparr>) cfg aud_url i c keymap st2") auto
  from attempt_indep[OF Cons.prems, where w = w and f = f and cfg = cfg and aud_url = aud_url
      and i = i and c = c and keymap = keymap] a1 a2
  have eqs: "s2 = s1" "k2 = k1" "trace t2 = trace t1" by simp_all
  show ?case
  proof (cases s1)
    case (Done t h)
    then show ?thesis using a1 a2 eqs by simp
  next
    case (Failed e)
    then show ?thesis using a1 a2 eqs Cons.IH[OF eqs(3), of "Suc i" k1 e] by simp
  qed
qed

subsection \<open>Sample runs\<close>

text \<open>The definitions a run on the sample inputs unfolds.\<close>

lemmas run_defs = get_access_token_via_jwt_def parse_keyring_def strip_def py_isspace_def
  split_first_def expand_home_def load_keymap_def attempt_order_def preferred_kid_def
  attempt_def sign_assertion_def post_assertion_def accept_response_def token_url_def
  log_event_def save_keymap_def sample_world_def sample_config_def fresh_state_def
  granted_response_def rejected_response_def tokenless_response_def tokenless_world_def
  audience_from_domain_def read_only_disk_def err_of_exc_def exhausted_message_def Let_def

subsection \<open>Claims\<close>

text \<open>
  C7. Audience mapping: the domain \<open>login\<close> gives \<open>https://login.salesforce.com\<close>, the
  domain \<open>test\<close> gives \<open>https://test.salesforce.com\<close>, and every other domain \<open>d\<close> gives
  \<open>https://\<close> followed by \<open>d\<close> unchanged.
\<close>

theorem audience_mapping:
  "audience_from_domain d =
     (if d = ''login'' then ''https://login.salesforce.com''
      else if d = ''test'' then ''https://test.salesforce.com''
      else ''https://'' @ d)"
  by (simp add: audience_from_domain_def)

theorem audience_mapping_witness:
  "audience_from_domain ''login'' = ''https://login.salesforce.com''
   \<and> audience_from_domain ''test'' = ''https://test.salesforce.com''
   \<and> audience_from_domain ''acme.my.salesforce.com'' = ''https://acme.my.salesforce.com''"
  using audience_mapping [of "''login''"] audience_mapping [of "''test''"]
    audience_mapping [of "''acme.my.salesforce.com''"]
  by simp

text \<open>
  C5. Load resilience: whatever exception opening or parsing the snapshot raises (the
  file is missing, unreadable, or not JSON), \<open>load_keymap\<close> returns the empty record, and
  the acquisition ends as it does on an empty record, with the same effects.
\<close>

theorem load_keymap_resilient:
  "open_json_load (Unavailable e) = Inl e
   \<and> load_keymap (Unavailable e) = JObj []
   \<and> fst (get_access_token_via_jwt w cfg \<lparr>keymap_file = Unavailable e, trace = tr\<rparr>)
       = fst (get_access_token_via_jwt w cfg \<lparr>keymap_file = Parsed (JObj []), trace = tr\<rparr>)
   \<and> trace (snd (get_access_token_via_jwt w cfg \<lparr>keymap_file = Unavailable e, trace = tr\<rparr>))
       = trace (snd (get_access_token_via_jwt w cfg \<lparr>keymap_file = Parsed (JObj []), trace = tr\<rparr>))"
proof -
  let ?s2 = "log_event Load \<lparr>keymap_file = Unavailable e, trace = tr\<rparr>"
  let ?s1 = "log_event Load \<lparr>keymap_file = Parsed (JObj []), trace = tr\<rparr>"
  have tr: "trace ?s2 = trace ?s1" by (simp add: log_event_def)
  have w: "w\<lparr>write_fault := write_fault w\<rparr> = w" by simp
  have l2: "load_keymap (keymap_file ?s2) = JObj []" by (simp add: load_keymap_def log_event_def)
  have l1: "load_keymap (keymap_file ?s1) = JObj []" by (simp add: load_keymap_def log_event_def)
  from try_keys_indep[OF tr, where w = w and f = "write_fault w"]
  have "fst (try_keys w cfg a 0 cs [] NoErr ?s2) = fst (try_keys w cfg a 0 cs [] NoErr ?s1)
      \<and> trace (snd (try_keys w cfg a 0 cs [] NoErr ?s2)) = trace (snd (try_keys w cfg a 0 cs [] NoErr ?s1))"
    for a cs
    unfolding w by blast
  then show ?thesis
    using l1 l2
    by (simp add: get_access_token_via_jwt_def Let_def load_keymap_def)
qed

theorem load_keymap_resilient_witness:
  "load_keymap (Unavailable (Exc ''JSONDecodeError'' ''Expecting value'')) = JObj []
   \<and> fst (get_access_token_via_jwt (sample_world ''/b'') sample_config
            \<lparr>keymap_file = Unavailable (Exc ''JSONDecodeError'' ''Expecting value''), trace = []\<rparr>)
       = fst (get_access_token_via_jwt (sample_world ''/b'') sample_config
            \<lparr>keymap_file = Parsed (JObj []), trace = []\<rparr>)"
  using load_keymap_resilient [of "Exc ''JSONDecodeError'' ''Expecting value''"
      "sample_world ''/b''" sample_config "[]"]
  by simp

text \<open>
  C4. Fatal configuration errors precede network access: when the client identifier
  or the acting-subject identifier is empty, or the parsed key ring is empty, the script
  ends through \<open>sys.exit\<close> with one of its three messages and status 1, before the
  snapshot is read, a key file is opened or a request is posted; it is never the
  RuntimeError of exhausted candidates.
\<close>

theorem config_errors_before_network:
  assumes "cfg = read_config (expanduser w) environ"
    and "SF_CLIENT_ID cfg = [] \<or> SF_JWT_USERNAME cfg = [] \<or> parse_keyring (expanduser w) cfg = []"
  shows "\<exists>msg. script w environ file = (SysExit msg, \<lparr>keymap_file = file, trace = []\<rparr>)
           \<and> msg \<in> {''Missing SF_CLIENT_ID or SF_JWT_USERNAME'',
                     ''Provide either SF_KEYS (key_id:path,...) or SF_PRIVATE_KEY_PATH'',
                     ''No keys found. Set SF_KEYS or SF_PRIVATE_KEY_PATH.''}
           \<and> exit_status (fst (script w environ file)) = Some 1
           \<and> posted (trace (snd (script w environ file))) = []"
proof (cases "module_checks cfg")
  case (Some msg)
  then have "msg \<in> {''Missing SF_CLIENT_ID or SF_JWT_USERNAME'',
                     ''Provide either SF_KEYS (key_id:path,...) or SF_PRIVATE_KEY_PATH''}"
    by (auto simp: module_checks_def split: if_splits)
  then show ?thesis using Some assms(1)
    by (intro exI[of _ msg]) (auto simp: script_def Let_def)
next
  case None
  then have "SF_CLIENT_ID cfg \<noteq> [] \<and> SF_JWT_USERNAME cfg \<noteq> []"
    by (auto simp: module_checks_def split: if_splits)
  with assms(2) have "parse_keyring (expanduser w) cfg = []" by blast
  then show ?thesis using None assms(1)
    by (intro exI[of _ "''No keys found. Set SF_KEYS or SF_PRIVATE_KEY_PATH.''"])
       (simp add: script_def Let_def get_access_token_via_jwt_def)
qed

theorem config_errors_before_network_witness:
  "\<exists>msg. script (sample_world ''/b'')
            (map_of [(''SF_JWT_USERNAME'', ''ops@example.com''), (''SF_KEYS'', ''A:/a'')])
            (Parsed (JObj [])) = (SysExit msg, \<lparr>keymap_file = Parsed (JObj []), trace = []\<rparr>)
         \<and> msg \<in> {''Missing SF_CLIENT_ID or SF_JWT_USERNAME'',
                   ''Provide either SF_KEYS (key_id:path,...) or SF_PRIVATE_KEY_PATH'',
                   ''No keys found. Set SF_KEYS or SF_PRIVATE_KEY_PATH.''}
         \<and> exit_status (fst (script (sample_world ''/b'')
            (map_of [(''SF_JWT_USERNAME'', ''ops@example.com''), (''SF_KEYS'', ''A:/a'')])
            (Parsed (JObj [])))) = Some 1
         \<and> posted (trace (snd (script (sample_world ''/b'')
            (map_of [(''SF_JWT_USERNAME'', ''ops@example.com''), (''SF_KEYS'', ''A:/a'')])
            (Parsed (JObj []))))) = []"
proof -
  have "SF_CLIENT_ID (read_config (expanduser (sample_world ''/b''))
          (map_of [(''SF_JWT_USERNAME'', ''ops@example.com''), (''SF_KEYS'', ''A:/a'')])) = []"
    by (simp add: read_config_def environ_get_def strip_def)
  then show ?thesis
    using config_errors_before_network [OF refl, of "sample_world ''/b''"
        "map_of [(''SF_JWT_USERNAME'', ''ops@example.com''), (''SF_KEYS'', ''A:/a'')]"
        "Parsed (JObj [])"]
    by blast
qed

text \<open>
  C10. The fallback key location is consulted only when the key specification is the
  empty string: a non-empty specification makes the ring independent of the fallback,
  an empty one with a fallback gives the single entry \<open>default\<close>, and a non-empty
  specification none of whose entries contains a colon gives the empty ring, on which
  the acquisition leaves through \<open>sys.exit\<close> whatever the fallback is.
\<close>

theorem fallback_only_for_empty_spec:
  "(SF_KEYS cfg \<noteq> [] \<longrightarrow>
      parse_keyring (expanduser w) (cfg\<lparr>SF_PRIVATE_KEY_PATH := p\<rparr>) = parse_keyring (expanduser w) cfg)
   \<and> (SF_KEYS cfg = [] \<and> SF_PRIVATE_KEY_PATH cfg \<noteq> [] \<longrightarrow>
      parse_keyring (expanduser w) cfg = [(''default'', expanduser w (SF_PRIVATE_KEY_PATH cfg))])
   \<and> (SF_KEYS cfg \<noteq> [] \<and> (\<forall>part\<in>set (split_on CHR '','' (SF_KEYS cfg)). CHR '':'' \<notin> set part) \<longrightarrow>
      parse_keyring (expanduser w) cfg = []
      \<and> get_access_token_via_jwt w cfg st =
          (SysExit ''No keys found. Set SF_KEYS or SF_PRIVATE_KEY_PATH.'', st))"
proof (intro conjI impI)
  assume "SF_KEYS cfg \<noteq> []"
  then show "parse_keyring (expanduser w) (cfg\<lparr>SF_PRIVATE_KEY_PATH := p\<rparr>) = parse_keyring (expanduser w) cfg"
    by (simp add: parse_keyring_def)
next
  assume "SF_KEYS cfg = [] \<and> SF_PRIVATE_KEY_PATH cfg \<noteq> []"
  then show "parse_keyring (expanduser w) cfg = [(''default'', expanduser w (SF_PRIVATE_KEY_PATH cfg))]"
    by (simp add: parse_keyring_def)
next
  assume a: "SF_KEYS cfg \<noteq> [] \<and> (\<forall>part\<in>set (split_on CHR '','' (SF_KEYS cfg)). CHR '':'' \<notin> set part)"
  then have "filter (\<lambda>p. CHR '':'' \<in> set p) (split_on CHR '','' (SF_KEYS cfg)) = []"
    by (simp add: filter_empty_conv)
  with a show ring: "parse_keyring (expanduser w) cfg = []"
    by (simp add: parse_keyring_def parse_parts_acc)
  then show "get_access_token_via_jwt w cfg st =
          (SysExit ''No keys found. Set SF_KEYS or SF_PRIVATE_KEY_PATH.'', st)"
    by (simp add: get_access_token_via_jwt_def Let_def)
qed

theorem fallback_only_for_empty_spec_witness:
  "parse_keyring expand_home (sample_config\<lparr>SF_KEYS := [], SF_PRIVATE_KEY_PATH := ''/k.pem''\<rparr>)
     = [(''default'', ''/k.pem'')]
   \<and> parse_keyring expand_home (sample_config\<lparr>SF_KEYS := ''A,B'', SF_PRIVATE_KEY_PATH := ''/k.pem''\<rparr>) = []
   \<and> get_access_token_via_jwt (sample_world ''/b'')
        (sample_config\<lparr>SF_KEYS := ''A,B'', SF_PRIVATE_KEY_PATH := ''/k.pem''\<rparr>) fresh_state
     = (SysExit ''No keys found. Set SF_KEYS or SF_PRIVATE_KEY_PATH.'', fresh_state)"
proof -
  have e: "expanduser (sample_world ''/b'') = expand_home" by (simp add: sample_world_def)
  have 1: "SF_KEYS (sample_config\<lparr>SF_KEYS := [], SF_PRIVATE_KEY_PATH := ''/k.pem''\<rparr>) = []
         \<and> SF_PRIVATE_KEY_PATH (sample_config\<lparr>SF_KEYS := [], SF_PRIVATE_KEY_PATH := ''/k.pem''\<rparr>) \<noteq> []"
    by simp
  have 2: "SF_KEYS (sample_config\<lparr>SF_KEYS := ''A,B'', SF_PRIVATE_KEY_PATH := ''/k.pem''\<rparr>) \<noteq> []
         \<and> (\<forall>part\<in>set (split_on CHR '','' (SF_KEYS (sample_config\<lparr>SF_KEYS := ''A,B'', SF_PRIVATE_KEY_PATH := ''/k.pem''\<rparr>))).
               CHR '':'' \<notin> set part)"
    by simp
  show ?thesis
    using 1 2
      fallback_only_for_empty_spec [of "sample_config\<lparr>SF_KEYS := [], SF_PRIVATE_KEY_PATH := ''/k.pem''\<rparr>"
        "sample_world ''/b''"]
      fallback_only_for_empty_spec [of "sample_config\<lparr>SF_KEYS := ''A,B'', SF_PRIVATE_KEY_PATH := ''/k.pem''\<rparr>"
        "sample_world ''/b''" _ fresh_state]
    unfolding e
    by (simp add: expand_home_def)
qed

subsection \<open>The attempt order\<close>

lemma filter_single:
  "length (filter P xs) = 1 \<Longrightarrow> e \<in> set xs \<Longrightarrow> P e \<Longrightarrow>
     filter P xs = [e] \<and> remove1 e xs = filter (\<lambda>x. \<not> P x) xs"
proof (induction xs)
  case Nil
  then show ?case by simp
next
  case (Cons x xs)
  show ?case
  proof (cases "P x")
    case True
    with Cons.prems(1) have none: "filter P xs = []" by simp
    then have all: "\<forall>y\<in>set xs. \<not> P y" by (simp add: filter_empty_conv)
    with Cons.prems(2,3) have "e = x" by auto
    moreover from all have "filter (\<lambda>x. \<not> P x) xs = xs" by (simp add: filter_id_conv)
    ultimately show ?thesis using True none by simp
  next
    case False
    with Cons.prems have "length (filter P xs) = 1" "e \<in> set xs" "e \<noteq> x" by auto
    with Cons.IH Cons.prems(3) False show ?thesis by simp
  qed
qed

lemma attempt_order_Nil: "attempt_order ring p = [] \<longleftrightarrow> ring = []"
  by (cases ring) (auto simp: attempt_order_def)

lemma attempt_order_set: "set (attempt_order ring p) = set ring"
  by (auto simp: attempt_order_def)

text \<open>
  C1 (as amended). Attempt order: when the stored hint is a non-empty string, the
  entries whose id is the hint come first, in their ring order, followed by the other
  entries in their ring order; when exactly one entry has that id, this is that entry
  moved to the front, the others keeping their order. With no hint, a hint that is
  empty or otherwise false, or a hint no entry matches, the order is the ring's.
\<close>

theorem attempt_order_hint:
  "(map_of keymap tenant = Some (JStr h) \<and> h \<noteq> [] \<longrightarrow>
      attempt_order ring (preferred_kid keymap tenant)
        = filter (\<lambda>p. fst p = h) ring @ filter (\<lambda>p. fst p \<noteq> h) ring)
   \<and> (map_of keymap tenant = Some (JStr h) \<and> h \<noteq> [] \<and> e \<in> set ring \<and> fst e = h
        \<and> length (filter (\<lambda>p. fst p = h) ring) = 1 \<longrightarrow>
      moved_to_front e ring (attempt_order ring (preferred_kid keymap tenant)))
   \<and> (map_of keymap tenant = None \<or> \<not> truthy (preferred_kid keymap tenant)
        \<or> (\<forall>p\<in>set ring. JStr (fst p) \<noteq> preferred_kid keymap tenant) \<longrightarrow>
      attempt_order ring (preferred_kid keymap tenant) = ring)"
proof (intro conjI impI)
  assume "map_of keymap tenant = Some (JStr h) \<and> h \<noteq> []"
  then show "attempt_order ring (preferred_kid keymap tenant)
        = filter (\<lambda>p. fst p = h) ring @ filter (\<lambda>p. fst p \<noteq> h) ring"
    by (simp add: attempt_order_def preferred_kid_def)
next
  assume a: "map_of keymap tenant = Some (JStr h) \<and> h \<noteq> [] \<and> e \<in> set ring \<and> fst e = h
        \<and> length (filter (\<lambda>p. fst p = h) ring) = 1"
  then have "filter (\<lambda>p. fst p = h) ring = [e] \<and> remove1 e ring = filter (\<lambda>p. \<not> fst p = h) ring"
    using filter_single[of "\<lambda>p. fst p = h" ring e] by blast
  with a show "moved_to_front e ring (attempt_order ring (preferred_kid keymap tenant))"
    by (simp add: moved_to_front_def attempt_order_def preferred_kid_def)
next
  assume "map_of keymap tenant = None \<or> \<not> truthy (preferred_kid keymap tenant)
        \<or> (\<forall>p\<in>set ring. JStr (fst p) \<noteq> preferred_kid keymap tenant)"
  then consider "map_of keymap tenant = None" | "\<not> truthy (preferred_kid keymap tenant)"
    | "\<forall>p\<in>set ring. JStr (fst p) \<noteq> preferred_kid keymap tenant" by auto
  then show "attempt_order ring (preferred_kid keymap tenant) = ring"
  proof cases
    case 1
    then show ?thesis by (simp add: attempt_order_def preferred_kid_def)
  next
    case 2
    then show ?thesis by (simp add: attempt_order_def)
  next
    case 3
    then have "filter (\<lambda>pair. JStr (fst pair) = preferred_kid keymap tenant) ring = []"
      and "filter (\<lambda>pair. JStr (fst pair) \<noteq> preferred_kid keymap tenant) ring = ring"
      by (simp_all add: filter_empty_conv filter_id_conv)
    then show ?thesis by (simp add: attempt_order_def)
  qed
qed

theorem attempt_order_hint_witness:
  "attempt_order [(''A'', ''/a''), (''B'', ''/b''), (''C'', ''/c'')]
       (preferred_kid [(''default'', JStr ''B'')] ''default'')
     = [(''B'', ''/b''), (''A'', ''/a''), (''C'', ''/c'')]
   \<and> moved_to_front (''B'', ''/b'') [(''A'', ''/a''), (''B'', ''/b''), (''C'', ''/c'')]
       (attempt_order [(''A'', ''/a''), (''B'', ''/b''), (''C'', ''/c'')]
          (preferred_kid [(''default'', JStr ''B'')] ''default''))
   \<and> attempt_order [(''A'', ''/a''), (''B'', ''/b''), (''C'', ''/c'')]
       (preferred_kid [(''default'', JStr ''Z'')] ''default'')
     = [(''A'', ''/a''), (''B'', ''/b''), (''C'', ''/c'')]
   \<and> attempt_order [(''A'', ''/a''), (''B'', ''/b''), (''C'', ''/c'')]
       (preferred_kid [] ''default'')
     = [(''A'', ''/a''), (''B'', ''/b''), (''C'', ''/c'')]"
  using attempt_order_hint [of "[(''default'', JStr ''B'')]" "''default''" "''B''"
      "[(''A'', ''/a''), (''B'', ''/b''), (''C'', ''/c'')]" "(''B'', ''/b'')"]
    attempt_order_hint [of "[(''default'', JStr ''Z'')]" "''default''" "''Z''"
      "[(''A'', ''/a''), (''B'', ''/b''), (''C'', ''/c'')]" "(''B'', ''/b'')"]
    attempt_order_hint [of "[]" "''default''" "''Z''"
      "[(''A'', ''/a''), (''B'', ''/b''), (''C'', ''/c'')]" "(''B'', ''/b'')"]
  by (simp add: preferred_kid_def moved_to_front_def)

text \<open>
  The claim as written fails in two ways. A stored hint that is the empty string
  matches the entry whose id is empty, and that entry stays where it is; and when two
  entries share the hinted id both go to the front, so that neither is the one entry
  moved to the front of an otherwise unchanged ring.
\<close>

theorem attempt_order_hint_counterexample:
  "map_of [(''default'', JStr [])] ''default'' = Some (JStr (fst ([] :: string, ''/b'')))
   \<and> ([], ''/b'') \<in> set [(''A'', ''/a''), ([], ''/b'')]
   \<and> \<not> moved_to_front ([], ''/b'') [(''A'', ''/a''), ([], ''/b'')]
         (attempt_order [(''A'', ''/a''), ([], ''/b'')]
            (preferred_kid [(''default'', JStr [])] ''default''))
   \<and> \<not> moved_to_front (''B'', ''/b1'') [(''A'', ''/a''), (''B'', ''/b1''), (''B'', ''/b2'')]
         (attempt_order [(''A'', ''/a''), (''B'', ''/b1''), (''B'', ''/b2'')]
            (preferred_kid [(''default'', JStr ''B'')] ''default''))
   \<and> \<not> moved_to_front (''B'', ''/b2'') [(''A'', ''/a''), (''B'', ''/b1''), (''B'', ''/b2'')]
         (attempt_order [(''A'', ''/a''), (''B'', ''/b1''), (''B'', ''/b2'')]
            (preferred_kid [(''default'', JStr ''B'')] ''default''))"
  by (simp add: moved_to_front_def attempt_order_def preferred_kid_def)

text \<open>
  C8 (as amended). Tolerant key-ring parsing: for a non-empty specification the ring
  holds, in the order of the specification, one entry for each comma-separated part that
  contains a colon; the part, trimmed, is cut at its first colon, the id is the trimmed
  text before it and the location is the trimmed text after it passed through
  \<open>os.path.expanduser\<close>. Parts without a colon, empty ones among them, are skipped.
\<close>

theorem parse_keyring_tolerant:
  assumes "SF_KEYS cfg \<noteq> []"
  shows "parse_keyring ex cfg
           = map (entry_of ex) (filter (\<lambda>part. CHR '':'' \<in> set part) (split_on CHR '','' (SF_KEYS cfg)))
       \<and> (\<forall>part\<in>set (split_on CHR '','' (SF_KEYS cfg)). CHR '':'' \<in> set part \<longrightarrow>
            (\<exists>kid path. strip part = kid @ CHR '':'' # path \<and> CHR '':'' \<notin> set kid
               \<and> entry_of ex part = (strip kid, ex (strip path))))"
proof (intro conjI ballI impI)
  show "parse_keyring ex cfg
           = map (entry_of ex) (filter (\<lambda>part. CHR '':'' \<in> set part) (split_on CHR '','' (SF_KEYS cfg)))"
    using assms by (simp add: parse_keyring_def parse_parts_acc)
next
  fix part
  assume "CHR '':'' \<in> set part"
  then have "CHR '':'' \<in> set (strip part)" by (simp add: colon_strip)
  from split_first_parts[OF this]
  show "\<exists>kid path. strip part = kid @ CHR '':'' # path \<and> CHR '':'' \<notin> set kid
               \<and> entry_of ex part = (strip kid, ex (strip path))"
    by (intro exI[of _ "fst (split_first CHR '':'' (strip part))"]
              exI[of _ "snd (split_first CHR '':'' (strip part))"])
       (simp add: entry_of_def split_trimmed_def split: prod.splits)
qed

theorem parse_keyring_tolerant_witness:
  "parse_keyring expand_home (sample_config\<lparr>SF_KEYS := ''a:/p1 , bad,, b : ~/x:y''\<rparr>)
     = [(''a'', ''/p1''), (''b'', ''/home/u/x:y'')]"
  using parse_keyring_tolerant [of "sample_config\<lparr>SF_KEYS := ''a:/p1 , bad,, b : ~/x:y''\<rparr>" expand_home]
  by (simp add: entry_of_def split_trimmed_def split_first_def strip_def py_isspace_def expand_home_def)

text \<open>
  The claim as written leaves the expansion out: the location \<open>~/k.pem\<close> is not kept as
  trimmed, it becomes a path under the home directory.
\<close>

theorem parse_keyring_tolerant_counterexample:
  "parse_keyring expand_home (sample_config\<lparr>SF_KEYS := ''k:~/k.pem''\<rparr>)
     \<noteq> map split_trimmed (filter (\<lambda>part. CHR '':'' \<in> set part) (split_on CHR '','' ''k:~/k.pem''))"
  by (simp add: parse_keyring_def split_trimmed_def split_first_def strip_def py_isspace_def
        expand_home_def)

subsection \<open>Exhaustion\<close>

lemma sample_ring:
  "parse_keyring expand_home sample_config = [(''A'', ''/a''), (''B'', ''/b''), (''C'', ''/c'')]"
  by (simp add: parse_keyring_def sample_config_def strip_def py_isspace_def split_first_def
        expand_home_def)

text \<open>
  When every candidate of the attempt order fails, in whichever way, the call raises a
  RuntimeError whose message names the tenant and carries the error of the last
  candidate only, and every candidate was tried, in order. If moreover no candidate's
  iteration reached the save (none was answered with a success status and a JSON body),
  nothing was saved and the snapshot file is as it was.
\<close>

theorem exhaustion:
  assumes "parse_keyring (expanduser w) cfg \<noteq> []"
    and "load_keymap (keymap_file st) = JObj keymap"
    and "ordered = attempt_order (parse_keyring (expanduser w) cfg) (preferred_kid keymap (TENANT_ID cfg))"
    and "\<forall>j<length ordered. candidate_fails w cfg (audience_from_domain (SF_DOMAIN cfg)) j (ordered ! j)"
  shows "\<exists>e st'. failure_of w cfg (audience_from_domain (SF_DOMAIN cfg))
                    (length ordered - 1) (last ordered) = Some e
         \<and> get_access_token_via_jwt w cfg st =
            (Raised (Exc ''RuntimeError''
               (''JWT exchange failed for tenant='' @ quoted (TENANT_ID cfg) @ ''. Last error: ''
                  @ str_last_err e)), st')
         \<and> candidates_tried (trace st') = candidates_tried (trace st) @ ordered
         \<and> ((\<forall>j<length ordered.
                \<not> reaches_save w cfg (audience_from_domain (SF_DOMAIN cfg)) j (ordered ! j)) \<longrightarrow>
              keymap_file st' = keymap_file st \<and> saved (trace st') = saved (trace st))"
proof -
  let ?aud = "audience_from_domain (SF_DOMAIN cfg)"
  let ?st = "log_event Load st"
  have ne: "ordered \<noteq> []" using assms(1,3) by (simp add: attempt_order_Nil)
  have fails: "\<forall>j<length ordered. candidate_fails w cfg ?aud (0 + j) (ordered ! j)"
    using assms(4) by simp
  from try_keys_all_fail[OF fails, of NoErr keymap ?st] ne obtain e st' evs where
    e: "failure_of w cfg ?aud (length ordered - 1) (last ordered) = Some e"
    and run: "try_keys w cfg ?aud 0 ordered keymap NoErr ?st =
                (Raised (Exc ''RuntimeError'' (exhausted_message cfg e)), st')"
    and tr: "trace st' = trace ?st @ evs" and ct: "candidates_tried evs = ordered"
    and sv: "(\<forall>j<length ordered. \<not> reaches_save w cfg ?aud j (ordered ! j)) \<longrightarrow> saved evs = []"
    and kf: "(\<forall>j<length ordered. \<not> reaches_save w cfg ?aud j (ordered ! j)) \<longrightarrow>
               keymap_file st' = keymap_file ?st"
    by auto
  have "get_access_token_via_jwt w cfg st = try_keys w cfg ?aud 0 ordered keymap NoErr ?st"
    using assms(1,2,3) by (simp add: get_access_token_via_jwt_def Let_def log_event_def)
  then show ?thesis
    using e run tr ct sv kf
    by (intro exI[of _ e] exI[of _ st'])
       (simp add: exhausted_message_def log_event_def candidates_tried_append saved_append)
qed

theorem exhaustion_witness:
  "\<exists>st'. get_access_token_via_jwt (sample_world []) sample_config fresh_state =
            (Raised (Exc ''RuntimeError''
               (''JWT exchange failed for tenant='' @ quoted ''default''
                  @ ''. Last error: (400, '' @ quoted ''invalid_grant'' @ '')'')), st')
         \<and> keymap_file st' = keymap_file fresh_state
         \<and> saved (trace st') = []
         \<and> candidates_tried (trace st') = [(''A'', ''/a''), (''B'', ''/b''), (''C'', ''/c'')]"
proof -
  let ?ring = "[(''A'', ''/a''), (''B'', ''/b''), (''C'', ''/c'')]"
  let ?aud = "audience_from_domain (SF_DOMAIN sample_config)"
  have ex: "expanduser (sample_world []) = expand_home" by (simp add: sample_world_def)
  have ring: "parse_keyring (expanduser (sample_world [])) sample_config = ?ring"
    unfolding ex by (rule sample_ring)
  have 1: "parse_keyring (expanduser (sample_world [])) sample_config \<noteq> []"
    unfolding ring by simp
  have 2: "load_keymap (keymap_file fresh_state) = JObj []"
    by (simp add: load_keymap_def fresh_state_def)
  have 3: "?ring = attempt_order (parse_keyring (expanduser (sample_world [])) sample_config)
                     (preferred_kid [] (TENANT_ID sample_config))"
    unfolding ring by (simp add: attempt_order_def preferred_kid_def)
  have l: "failure_of (sample_world []) sample_config a j (k, c # cs) = Some (HttpErr 400 ''invalid_grant'')"
    for a j k c cs
    by (simp add: failure_of_def sign_assertion_def post_assertion_def sample_world_def
          rejected_response_def)
  have s: "\<not> reaches_save (sample_world []) sample_config a j (k, c # cs)" for a j k c cs
    by (simp add: reaches_save_def sign_assertion_def post_assertion_def sample_world_def
          rejected_response_def)
  have 4: "\<forall>j<length ?ring. candidate_fails (sample_world []) sample_config ?aud j (?ring ! j)"
    using l by (simp add: nth_Cons' candidate_fails_def)
  have 5: "\<forall>j<length ?ring. \<not> reaches_save (sample_world []) sample_config ?aud j (?ring ! j)"
    using s by (simp add: nth_Cons')
  have d: "repr_int 400 = ''400''" "repr_str ''invalid_grant'' = quoted ''invalid_grant''"
    by (simp_all add: repr_int_def repr_str_def repr_char_def py_isprintable_def quoted_def
          digit_char_def decimal.simps Let_def)
  have t: "TENANT_ID sample_config = ''default''" by (simp add: sample_config_def)
  from exhaustion [OF 1 2 3 4] 5 obtain e st' where
    "failure_of (sample_world []) sample_config ?aud (length ?ring - 1) (last ?ring) = Some e"
    "get_access_token_via_jwt (sample_world []) sample_config fresh_state =
            (Raised (Exc ''RuntimeError''
               (''JWT exchange failed for tenant='' @ quoted (TENANT_ID sample_config)
                  @ ''. Last error: '' @ str_last_err e)), st')"
    "candidates_tried (trace st') = candidates_tried (trace fresh_state) @ ?ring"
    "keymap_file st' = keymap_file fresh_state" "saved (trace st') = saved (trace fresh_state)"
    by blast
  then show ?thesis
    using l[of ?aud "length ?ring - 1" "''C''" "CHR ''/''" "''c''"]
    by (intro exI[of _ st']) (simp add: d t fresh_state_def)
qed

text \<open>
  C3. Exhaustion does not leave the preference store as it was. Here the provider
  answers every token request with a success status and a JSON body without
  \<open>access_token\<close>: each iteration updates the record and saves it (lines 119 and 120)
  before the subscript of line 121 raises the KeyError that line 124 records. Every
  candidate fails and the call raises the RuntimeError with the last error, yet three
  records were saved, and the snapshot, which did not exist, names the last candidate
  for the tenant.
\<close>

theorem exhaustion_changes_store:
  "candidate_fails (tokenless_world []) sample_config
       (audience_from_domain (SF_DOMAIN sample_config)) 0 (''A'', ''/a'')
   \<and> candidate_fails (tokenless_world []) sample_config
       (audience_from_domain (SF_DOMAIN sample_config)) 1 (''B'', ''/b'')
   \<and> candidate_fails (tokenless_world []) sample_config
       (audience_from_domain (SF_DOMAIN sample_config)) 2 (''C'', ''/c'')
   \<and> keymap_file fresh_state = Unavailable (Exc ''FileNotFoundError'' ''No such file or directory'')
   \<and> get_access_token_via_jwt (tokenless_world []) sample_config fresh_state =
       (Raised (Exc ''RuntimeError''
          (''JWT exchange failed for tenant='' @ quoted ''default''
             @ ''. Last error: ('' @ quoted ''KeyError'' @ '', ''
             @ [CHR 0x22] @ quoted ''access_token'' @ [CHR 0x22] @ '')'')),
        \<lparr>keymap_file = Parsed (JObj [(''default'', JStr ''C'')]),
          trace = [Load,
                   Candidate ''A'' ''/a'',
                   Post ''https://login.salesforce.com/services/oauth2/token'' ''/a'',
                   Save (JObj [(''default'', JStr ''A'')]),
                   Candidate ''B'' ''/b'',
                   Post ''https://login.salesforce.com/services/oauth2/token'' ''/b'',
                   Save (JObj [(''default'', JStr ''B'')]),
                   Candidate ''C'' ''/c'',
                   Post ''https://login.salesforce.com/services/oauth2/token'' ''/c'',
                   Save (JObj [(''default'', JStr ''C'')])]\<rparr>)"
  by (simp add: run_defs candidate_fails_def failure_of_def quoted_def repr_str_def repr_char_def
        py_isprintable_def)

subsection \<open>The whole call\<close>

lemma saved_last:
  assumes "evs \<noteq> []" and "last evs = Save m"
  shows "saved evs \<noteq> [] \<and> last (saved evs) = m"
proof -
  from assms have "evs = butlast evs @ [Save m]" by (metis append_butlast_last_id)
  then have "saved evs = saved (butlast evs) @ [m]"
    by (metis saved_append saved.simps(1,2))
  then show ?thesis by simp
qed

lemma candidate_grant_write_fault:
  "candidate_grant (w\<lparr>write_fault := f\<rparr>) cfg aud_url i c = candidate_grant w cfg aud_url i c"
  by (cases "sign_assertion w cfg aud_url i c")
     (simp_all add: candidate_grant_def sign_assertion_write_fault post_assertion_write_fault)

text \<open>The call on a non-empty ring and a snapshot that loads as a dict is the loop.\<close>

lemma acquire_loop:
  assumes "parse_keyring (expanduser w) cfg \<noteq> []"
    and "load_keymap (keymap_file st) = JObj keymap"
  shows "get_access_token_via_jwt w cfg st =
           try_keys w cfg (audience_from_domain (SF_DOMAIN cfg)) 0
             (attempt_order (parse_keyring (expanduser w) cfg) (preferred_kid keymap (TENANT_ID cfg)))
             keymap NoErr (log_event Load st)"
  using assms by (simp add: get_access_token_via_jwt_def Let_def log_event_def)

lemma acquire_first_success:
  assumes "parse_keyring (expanduser w) cfg \<noteq> []"
    and "load_keymap (keymap_file st) = JObj keymap"
    and "attempt_order (parse_keyring (expanduser w) cfg) (preferred_kid keymap (TENANT_ID cfg))
           = pre @ c # post"
    and "\<forall>j<length pre. candidate_grant w cfg (audience_from_domain (SF_DOMAIN cfg)) j (pre ! j) = None"
    and "candidate_grant w cfg (audience_from_domain (SF_DOMAIN cfg)) (length pre) c = Some (t, h)"
  shows "\<exists>st' evs fl. get_access_token_via_jwt w cfg st = (Returned t h, st')
           \<and> trace st' = trace st @ Load # evs \<and> candidates_tried evs = pre @ [c]
           \<and> evs \<noteq> [] \<and> last evs = Save (JObj (AList.update (TENANT_ID cfg) (JStr (fst c)) keymap))
           \<and> keymap_file st' = save_keymap (write_fault w (length pre))
                (JObj (AList.update (TENANT_ID cfg) (JStr (fst c)) keymap)) fl"
proof -
  let ?aud = "audience_from_domain (SF_DOMAIN cfg)"
  have a: "\<forall>j<length pre. candidate_grant w cfg ?aud (0 + j) (pre ! j) = None"
    using assms(4) by simp
  have b: "candidate_grant w cfg ?aud (0 + length pre) c = Some (t, h)"
    using assms(5) by simp
  have inv: "keymap = keymap \<or> (\<exists>k. keymap = AList.update (TENANT_ID cfg) (JStr k) keymap)"
    by simp
  from try_keys_first_success[OF a b inv, of post NoErr "log_event Load st"]
  obtain st' evs fl where
    "try_keys w cfg ?aud 0 (pre @ c # post) keymap NoErr (log_event Load st) = (Returned t h, st')"
    "trace st' = trace (log_event Load st) @ evs" "candidates_tried evs = pre @ [c]"
    "evs \<noteq> []" "last evs = Save (JObj (AList.update (TENANT_ID cfg) (JStr (fst c)) keymap))"
    "keymap_file st' = save_keymap (write_fault w (0 + length pre))
        (JObj (AList.update (TENANT_ID cfg) (JStr (fst c)) keymap)) fl"
    by blast
  then show ?thesis
    using acquire_loop[OF assms(1,2)] assms(3)
    by (intro exI[of _ st'] exI[of _ evs] exI[of _ fl]) (simp add: log_event_def)
qed

text \<open>Candidates are tried in the attempt order, from its first entry on.\<close>

lemma acquire_run:
  assumes "parse_keyring (expanduser w) cfg \<noteq> []"
    and "load_keymap (keymap_file st) = JObj keymap"
  shows "\<exists>evs n. trace (snd (get_access_token_via_jwt w cfg st)) = trace st @ Load # evs
           \<and> 0 < n
           \<and> candidates_tried evs = take n (attempt_order (parse_keyring (expanduser w) cfg)
                                               (preferred_kid keymap (TENANT_ID cfg)))
           \<and> set (saved evs) \<subseteq> (\<lambda>k. JObj (AList.update (TENANT_ID cfg) (JStr k) keymap))
                                    ` fst ` set (parse_keyring (expanduser w) cfg)
           \<and> (\<forall>t h. fst (get_access_token_via_jwt w cfg st) = Returned t h \<longrightarrow>
                 n \<le> length (parse_keyring (expanduser w) cfg) \<and> evs \<noteq> []
                 \<and> last evs = Save (JObj (AList.update (TENANT_ID cfg)
                      (JStr (fst (attempt_order (parse_keyring (expanduser w) cfg)
                                   (preferred_kid keymap (TENANT_ID cfg)) ! (n - 1)))) keymap)))"
proof -
  let ?aud = "audience_from_domain (SF_DOMAIN cfg)"
  let ?cs = "attempt_order (parse_keyring (expanduser w) cfg) (preferred_kid keymap (TENANT_ID cfg))"
  have ne: "?cs \<noteq> []" using assms(1) by (simp add: attempt_order_Nil)
  have len: "length ?cs = length (parse_keyring (expanduser w) cfg)"
    by (simp add: attempt_order_def sum_length_filter_compl)
  have inv: "keymap = keymap \<or> (\<exists>k. keymap = AList.update (TENANT_ID cfg) (JStr k) keymap)"
    by simp
  from try_keys_run[OF inv, of w ?aud 0 ?cs NoErr "log_event Load st"] obtain evs n where
    r: "trace (snd (try_keys w cfg ?aud 0 ?cs keymap NoErr (log_event Load st)))
          = trace (log_event Load st) @ evs"
      "candidates_tried evs = take n ?cs" "?cs \<noteq> [] \<longrightarrow> 0 < n"
      "set (saved evs) \<subseteq> (\<lambda>k. JObj (AList.update (TENANT_ID cfg) (JStr k) keymap)) ` fst ` set ?cs"
      "\<forall>t h. fst (try_keys w cfg ?aud 0 ?cs keymap NoErr (log_event Load st)) = Returned t h \<longrightarrow>
               0 < n \<and> n \<le> length ?cs \<and> evs \<noteq> []
               \<and> last evs = Save (JObj (AList.update (TENANT_ID cfg) (JStr (fst (?cs ! (n - 1)))) keymap))"
    by blast
  show ?thesis
    using r ne len acquire_loop[OF assms]
    by (intro exI[of _ evs] exI[of _ n]) (simp add: log_event_def attempt_order_set)
qed

text \<open>Faults of the snapshot write change neither the outcome nor the effects.\<close>

lemma acquire_write_fault_indep:
  "fst (get_access_token_via_jwt (w\<lparr>write_fault := f\<rparr>) cfg st) = fst (get_access_token_via_jwt w cfg st)
   \<and> trace (snd (get_access_token_via_jwt (w\<lparr>write_fault := f\<rparr>) cfg st))
       = trace (snd (get_access_token_via_jwt w cfg st))"
proof -
  have "fst (try_keys (w\<lparr>write_fault := f\<rparr>) cfg a 0 cs km NoErr (log_event Load st))
          = fst (try_keys w cfg a 0 cs km NoErr (log_event Load st))
      \<and> trace (snd (try_keys (w\<lparr>write_fault := f\<rparr>) cfg a 0 cs km NoErr (log_event Load st)))
          = trace (snd (try_keys w cfg a 0 cs km NoErr (log_event Load st)))" for a cs km
    by (rule try_keys_indep) simp
  then show ?thesis
    by (cases "load_keymap (keymap_file (log_event Load st))")
       (simp_all add: get_access_token_via_jwt_def Let_def)
qed

lemma last_take: "0 < n \<Longrightarrow> n \<le> length xs \<Longrightarrow> last (take n xs) = xs ! (n - 1)"
  by (induction xs arbitrary: n) (auto simp: take_Cons' nth_Cons')

lemma returned_ring:
  assumes "get_access_token_via_jwt w cfg st = (Returned t h, st')"
  shows "parse_keyring (expanduser w) cfg \<noteq> []"
proof
  assume "parse_keyring (expanduser w) cfg = []"
  then have "fst (get_access_token_via_jwt w cfg st)
               = SysExit ''No keys found. Set SF_KEYS or SF_PRIVATE_KEY_PATH.''"
    by (simp add: get_access_token_via_jwt_def Let_def)
  with assms show False by simp
qed

text \<open>
  The frame of the preference store: when the call returns, the record of the last
  save is the loaded record with the requesting tenant set to the id of the last
  candidate tried, the one that succeeded; and every record passed to \<open>save_keymap\<close>
  during the call is the loaded record with only the tenant's entry set, to some id,
  so that every other tenant's entry is as loaded and no entry is missing.
\<close>

theorem preference_frame:
  assumes "get_access_token_via_jwt w cfg st = (Returned t h, st')"
    and "load_keymap (keymap_file st) = JObj keymap"
  shows "\<exists>evs kid path. trace st' = trace st @ Load # evs
           \<and> candidates_tried evs \<noteq> [] \<and> last (candidates_tried evs) = (kid, path)
           \<and> saved evs \<noteq> []
           \<and> last (saved evs) = JObj (AList.update (TENANT_ID cfg) (JStr kid) keymap)
           \<and> (\<forall>m\<in>set (saved evs). \<exists>kvs k. m = JObj kvs
                 \<and> kvs = AList.update (TENANT_ID cfg) (JStr k) keymap
                 \<and> (\<forall>tenant. tenant \<noteq> TENANT_ID cfg \<longrightarrow> map_of kvs tenant = map_of keymap tenant)
                 \<and> dom (map_of keymap) \<subseteq> dom (map_of kvs))"
proof -
  let ?ring = "parse_keyring (expanduser w) cfg"
  let ?cs = "attempt_order ?ring (preferred_kid keymap (TENANT_ID cfg))"
  have ring: "?ring \<noteq> []" using assms(1) by (rule returned_ring)
  have len: "length ?cs = length ?ring"
    by (simp add: attempt_order_def sum_length_filter_compl)
  from assms(1) have out: "fst (get_access_token_via_jwt w cfg st) = Returned t h"
    and st': "snd (get_access_token_via_jwt w cfg st) = st'" by simp_all
  from acquire_run[OF ring assms(2)] out st' obtain evs n where
    tr: "trace st' = trace st @ Load # evs" and n: "0 < n" "n \<le> length ?ring"
    and ct: "candidates_tried evs = take n ?cs"
    and sv: "set (saved evs) \<subseteq> (\<lambda>k. JObj (AList.update (TENANT_ID cfg) (JStr k) keymap)) ` fst ` set ?ring"
    and ne: "evs \<noteq> []"
    and la: "last evs = Save (JObj (AList.update (TENANT_ID cfg) (JStr (fst (?cs ! (n - 1)))) keymap))"
    by auto
  have c1: "candidates_tried evs \<noteq> []" using ct n ring by (simp add: attempt_order_Nil)
  have c2: "last (candidates_tried evs) = (fst (?cs ! (n - 1)), snd (?cs ! (n - 1)))"
    using ct n len by (simp add: last_take)
  note s = saved_last[OF ne la]
  have fr: "\<exists>kvs k. m = JObj kvs \<and> kvs = AList.update (TENANT_ID cfg) (JStr k) keymap
                 \<and> (\<forall>tenant. tenant \<noteq> TENANT_ID cfg \<longrightarrow> map_of kvs tenant = map_of keymap tenant)
                 \<and> dom (map_of keymap) \<subseteq> dom (map_of kvs)"
    if "m \<in> set (saved evs)" for m
  proof -
    from that sv obtain k where "m = JObj (AList.update (TENANT_ID cfg) (JStr k) keymap)" by auto
    then show ?thesis by (auto simp: update_conv')
  qed
  show ?thesis
    using tr c1 c2 s fr
    by (intro exI[of _ evs] exI[of _ "fst (?cs ! (n - 1))"] exI[of _ "snd (?cs ! (n - 1))"]) blast
qed

lemma sample_grant_b:
  "candidate_grant (sample_world ''/b'') cfg a j (k, ''/b'')
     = Some (JStr ''00D'', JStr ''https://na1.salesforce.com'')"
  by (simp add: candidate_grant_def sign_assertion_def post_assertion_def sample_world_def
        granted_response_def)

lemma sample_grant_other:
  "p \<noteq> ''/b'' \<Longrightarrow> candidate_grant (sample_world ''/b'') cfg a j (k, p) = None"
  by (simp add: candidate_grant_def sign_assertion_def post_assertion_def sample_world_def
        rejected_response_def)

lemma sample_expanduser: "expanduser (sample_world g) = expand_home"
  by (simp add: sample_world_def)

lemma sample_tenant: "TENANT_ID sample_config = ''default''"
  by (simp add: sample_config_def)

text \<open>
  The sample run: the snapshot prefers \<open>A\<close> for the tenant and holds another tenant's
  entry; \<open>A\<close> is rejected, \<open>B\<close> is granted.
\<close>

lemma sample_run:
  "\<exists>st'. get_access_token_via_jwt (sample_world ''/b'') sample_config
            \<lparr>keymap_file = Parsed (JObj [(''other'', JStr ''C''), (''default'', JStr ''A'')]), trace = []\<rparr>
          = (Returned (JStr ''00D'') (JStr ''https://na1.salesforce.com''), st')"
proof -
  let ?w = "sample_world ''/b''"
  let ?km = "[(''other'', JStr ''C''), (''default'', JStr ''A'')]"
  let ?st = "\<lparr>keymap_file = Parsed (JObj ?km), trace = []\<rparr>"
  have 1: "parse_keyring (expanduser ?w) sample_config \<noteq> []"
    by (simp add: sample_expanduser sample_ring)
  have 2: "load_keymap (keymap_file ?st) = JObj ?km" by (simp add: load_keymap_def)
  have 3: "attempt_order (parse_keyring (expanduser ?w) sample_config)
             (preferred_kid ?km (TENANT_ID sample_config))
           = [(''A'', ''/a'')] @ (''B'', ''/b'') # [(''C'', ''/c'')]"
    by (simp add: sample_expanduser sample_ring attempt_order_def preferred_kid_def sample_tenant)
  have 4: "\<forall>j<length [(''A'', ''/a'')]. candidate_grant ?w sample_config
              (audience_from_domain (SF_DOMAIN sample_config)) j ([(''A'', ''/a'')] ! j) = None"
    by (simp add: sample_grant_other)
  have 5: "candidate_grant ?w sample_config (audience_from_domain (SF_DOMAIN sample_config))
              (length [(''A'', ''/a'')]) (''B'', ''/b'')
           = Some (JStr ''00D'', JStr ''https://na1.salesforce.com'')"
    by (rule sample_grant_b)
  from acquire_first_success[OF 1 2 3 4 5] show ?thesis by blast
qed

theorem preference_frame_witness:
  "\<exists>st' evs kid path.
      get_access_token_via_jwt (sample_world ''/b'') sample_config
          \<lparr>keymap_file = Parsed (JObj [(''other'', JStr ''C''), (''default'', JStr ''A'')]), trace = []\<rparr>
        = (Returned (JStr ''00D'') (JStr ''https://na1.salesforce.com''), st')
      \<and> trace st' = Load # evs
      \<and> last (candidates_tried evs) = (kid, path)
      \<and> last (saved evs) = JObj [(''other'', JStr ''C''), (''default'', JStr kid)]"
proof -
  from sample_run obtain st' where
    r: "get_access_token_via_jwt (sample_world ''/b'') sample_config
          \<lparr>keymap_file = Parsed (JObj [(''other'', JStr ''C''), (''default'', JStr ''A'')]), trace = []\<rparr>
        = (Returned (JStr ''00D'') (JStr ''https://na1.salesforce.com''), st')"
    by blast
  have l: "load_keymap (keymap_file
             \<lparr>keymap_file = Parsed (JObj [(''other'', JStr ''C''), (''default'', JStr ''A'')]), trace = []\<rparr>)
           = JObj [(''other'', JStr ''C''), (''default'', JStr ''A'')]"
    by (simp add: load_keymap_def)
  note t = sample_tenant
  from preference_frame [OF r l] obtain evs kid path where
    "trace st' = Load # evs" "last (candidates_tried evs) = (kid, path)"
    "last (saved evs) = JObj (AList.update ''default'' (JStr kid)
        [(''other'', JStr ''C''), (''default'', JStr ''A'')])"
    unfolding t by auto
  then show ?thesis using r
    by (intro exI[of _ st'] exI[of _ evs] exI[of _ kid] exI[of _ path]) simp
qed

text \<open>
  C9. In a successful acquisition the record passed to \<open>save_keymap\<close> is not always
  set to the id of the candidate that succeeds. Here the provider answers \<open>A\<close> with a
  success status and a body without token, and grants \<open>B\<close>: the iteration of \<open>A\<close>
  saves the loaded record with the tenant set to \<open>A\<close> (lines 119 and 120) before it
  fails on line 121, so the call that returns the token of \<open>B\<close> has saved two records,
  the first of which names a candidate that failed.
\<close>

theorem success_saves_failed_key:
  "candidate_fails (tokenless_world ''/b'') sample_config
       (audience_from_domain (SF_DOMAIN sample_config)) 0 (''A'', ''/a'')
   \<and> candidate_grant (tokenless_world ''/b'') sample_config
       (audience_from_domain (SF_DOMAIN sample_config)) 1 (''B'', ''/b'')
     = Some (JStr ''00D'', JStr ''https://na1.salesforce.com'')
   \<and> get_access_token_via_jwt (tokenless_world ''/b'') sample_config
       \<lparr>keymap_file = Parsed (JObj [(''other'', JStr ''C'')]), trace = []\<rparr> =
       (Returned (JStr ''00D'') (JStr ''https://na1.salesforce.com''),
        \<lparr>keymap_file = Parsed (JObj [(''other'', JStr ''C''), (''default'', JStr ''B'')]),
          trace = [Load,
                   Candidate ''A'' ''/a'',
                   Post ''https://login.salesforce.com/services/oauth2/token'' ''/a'',
                   Save (JObj [(''other'', JStr ''C''), (''default'', JStr ''A'')]),
                   Candidate ''B'' ''/b'',
                   Post ''https://login.salesforce.com/services/oauth2/token'' ''/b'',
                   Save (JObj [(''other'', JStr ''C''), (''default'', JStr ''B'')])]\<rparr>)
   \<and> JObj [(''other'', JStr ''C''), (''default'', JStr ''A'')]
       \<noteq> JObj (AList.update ''default'' (JStr ''B'') [(''other'', JStr ''C'')])"
  by (simp add: run_defs candidate_fails_def failure_of_def candidate_grant_def)

subsection \<open>Best-effort save\<close>

lemma sample_hinted_order:
  "attempt_order (parse_keyring (expanduser (sample_world g)) sample_config)
     (preferred_kid [(''other'', JStr ''C''), (''default'', JStr ''A'')] (TENANT_ID sample_config))
   = [(''A'', ''/a'')] @ (''B'', ''/b'') # [(''C'', ''/c'')]"
  by (simp add: sample_expanduser sample_ring attempt_order_def preferred_kid_def sample_tenant)

lemma sample_pre:
  "\<forall>j<length [(''A'', ''/a'')]. candidate_grant (sample_world ''/b'') sample_config a j
      ([(''A'', ''/a'')] ! j) = None"
  by (simp add: sample_grant_other)

text \<open>
  C6. Save is best-effort: \<open>save_keymap\<close> writes the whole record (the file then holds
  exactly it), and when \<open>mkdir\<close>, \<open>open\<close> or \<open>json.dump\<close> raises, the exception is
  dropped: the call comes back and the file is what the failed step left. Whatever the
  faults of the disk, the acquisition returns the pair of the first candidate whose
  exchange succeeds, after the same attempts, its last effect being the save of the
  record that names that candidate.
\<close>

theorem save_keymap_best_effort:
  assumes "parse_keyring (expanduser w) cfg \<noteq> []"
    and "load_keymap (keymap_file st) = JObj keymap"
    and "attempt_order (parse_keyring (expanduser w) cfg) (preferred_kid keymap (TENANT_ID cfg))
           = pre @ c # post"
    and "\<forall>j<length pre. candidate_grant w cfg (audience_from_domain (SF_DOMAIN cfg)) j (pre ! j) = None"
    and "candidate_grant w cfg (audience_from_domain (SF_DOMAIN cfg)) (length pre) c = Some (t, h)"
  shows "save_keymap None m file = Parsed m
       \<and> mkdir_open_dump (Some (MkdirFails e)) m file = (Some e, file)
       \<and> save_keymap (Some (MkdirFails e)) m file = file
       \<and> mkdir_open_dump (Some (OpenFails e)) m file = (Some e, file)
       \<and> save_keymap (Some (OpenFails e)) m file = file
       \<and> fst (mkdir_open_dump (Some (DumpFails e)) m file) = Some e
       \<and> (\<exists>e'. save_keymap (Some (DumpFails e)) m file = Unavailable e')
       \<and> (\<exists>st'. get_access_token_via_jwt (w\<lparr>write_fault := f\<rparr>) cfg st = (Returned t h, st')
              \<and> candidates_tried (trace st') = candidates_tried (trace st) @ pre @ [c]
              \<and> last (trace st') = Save (JObj (AList.update (TENANT_ID cfg) (JStr (fst c)) keymap)))"
proof -
  let ?w = "w\<lparr>write_fault := f\<rparr>"
  let ?aud = "audience_from_domain (SF_DOMAIN cfg)"
  have 1: "parse_keyring (expanduser ?w) cfg \<noteq> []" using assms(1) by simp
  have 3: "attempt_order (parse_keyring (expanduser ?w) cfg) (preferred_kid keymap (TENANT_ID cfg))
             = pre @ c # post" using assms(3) by simp
  have 4: "\<forall>j<length pre. candidate_grant ?w cfg ?aud j (pre ! j) = None"
    using assms(4) by (simp add: candidate_grant_write_fault)
  have 5: "candidate_grant ?w cfg ?aud (length pre) c = Some (t, h)"
    using assms(5) by (simp add: candidate_grant_write_fault)
  from acquire_first_success[OF 1 assms(2) 3 4 5] obtain st' evs fl where
    run: "get_access_token_via_jwt ?w cfg st = (Returned t h, st')"
    and tr: "trace st' = trace st @ Load # evs" and ct: "candidates_tried evs = pre @ [c]"
    and ne: "evs \<noteq> []"
    and la: "last evs = Save (JObj (AList.update (TENANT_ID cfg) (JStr (fst c)) keymap))"
    by blast
  have a: "candidates_tried (trace st') = candidates_tried (trace st) @ pre @ [c]"
    using tr ct by (simp add: candidates_tried_append)
  have b: "last (trace st') = Save (JObj (AList.update (TENANT_ID cfg) (JStr (fst c)) keymap))"
    using tr ne la by simp
  have acq: "\<exists>st'. get_access_token_via_jwt ?w cfg st = (Returned t h, st')
              \<and> candidates_tried (trace st') = candidates_tried (trace st) @ pre @ [c]
              \<and> last (trace st') = Save (JObj (AList.update (TENANT_ID cfg) (JStr (fst c)) keymap))"
    using run a b by (intro exI[of _ st']) simp
  show ?thesis
    apply (intro conjI)
    subgoal by (simp add: save_keymap_def)
    subgoal by simp
    subgoal by (simp add: save_keymap_def)
    subgoal by simp
    subgoal by (simp add: save_keymap_def)
    subgoal by simp
    subgoal by (simp add: save_keymap_def)
    subgoal by (rule acq)
    done
qed

theorem save_keymap_best_effort_witness:
  "save_keymap None (JObj [(''default'', JStr ''B'')]) (keymap_file fresh_state)
     = Parsed (JObj [(''default'', JStr ''B'')])
   \<and> save_keymap (read_only_disk 1) (JObj [(''default'', JStr ''B'')]) (keymap_file fresh_state)
     = keymap_file fresh_state
   \<and> (\<exists>st'. get_access_token_via_jwt ((sample_world ''/b'')\<lparr>write_fault := read_only_disk\<rparr>)
               sample_config
               \<lparr>keymap_file = Parsed (JObj [(''other'', JStr ''C''), (''default'', JStr ''A'')]), trace = []\<rparr>
             = (Returned (JStr ''00D'') (JStr ''https://na1.salesforce.com''), st')
          \<and> candidates_tried (trace st') = [(''A'', ''/a''), (''B'', ''/b'')])"
proof -
  let ?w = "sample_world ''/b''"
  let ?km = "[(''other'', JStr ''C''), (''default'', JStr ''A'')]"
  let ?st = "\<lparr>keymap_file = Parsed (JObj ?km), trace = []\<rparr>"
  let ?m = "JObj [(''default'', JStr ''B'')]"
  let ?e = "Exc ''PermissionError'' ''Permission denied''"
  have 1: "parse_keyring (expanduser ?w) sample_config \<noteq> []"
    by (simp add: sample_expanduser sample_ring)
  have 2: "load_keymap (keymap_file ?st) = JObj ?km" by (simp add: load_keymap_def)
  have 5: "candidate_grant ?w sample_config (audience_from_domain (SF_DOMAIN sample_config))
              (length [(''A'', ''/a'')]) (''B'', ''/b'')
           = Some (JStr ''00D'', JStr ''https://na1.salesforce.com'')"
    by (rule sample_grant_b)
  note T = save_keymap_best_effort [OF 1 2 sample_hinted_order sample_pre 5,
      of ?m "keymap_file fresh_state" ?e read_only_disk]
  note s1 = T[THEN conjunct1]
  note s2 = T[THEN conjunct2, THEN conjunct2, THEN conjunct2, THEN conjunct2, THEN conjunct1]
  note s3 = T[THEN conjunct2, THEN conjunct2, THEN conjunct2, THEN conjunct2, THEN conjunct2,
              THEN conjunct2, THEN conjunct2]
  from s3 obtain st' where
    r: "get_access_token_via_jwt (?w\<lparr>write_fault := read_only_disk\<rparr>) sample_config ?st
          = (Returned (JStr ''00D'') (JStr ''https://na1.salesforce.com''), st')"
    and c: "candidates_tried (trace st') = candidates_tried (trace ?st) @ [(''A'', ''/a'')] @ [(''B'', ''/b'')]"
    by (elim exE conjE) (rule that, assumption+)
  have d: "read_only_disk 1 = Some (OpenFails ?e)" by (simp add: read_only_disk_def)
  have ex: "\<exists>st'. get_access_token_via_jwt (?w\<lparr>write_fault := read_only_disk\<rparr>) sample_config ?st
             = (Returned (JStr ''00D'') (JStr ''https://na1.salesforce.com''), st')
          \<and> candidates_tried (trace st') = [(''A'', ''/a''), (''B'', ''/b'')]"
    using r c by (intro exI[of _ st']) simp
  show ?thesis
    apply (intro conjI)
    subgoal by (rule s1)
    subgoal unfolding d by (rule s2)
    subgoal by (rule ex)
    done
qed

subsection \<open>Success\<close>

text \<open>After a successful save of a non-empty id, the next call starts from that id.\<close>

lemma next_acquire:
  assumes "parse_keyring (expanduser w2) cfg = ring" and "ring \<noteq> []"
    and "keymap_file st2 = Parsed (JObj (AList.update (TENANT_ID cfg) (JStr kid) keymap))"
  shows "\<exists>n>0. candidates_tried (trace (snd (get_access_token_via_jwt w2 cfg st2)))
                 = candidates_tried (trace st2) @ take n (attempt_order ring (JStr kid))"
proof -
  let ?km = "AList.update (TENANT_ID cfg) (JStr kid) keymap"
  have ne: "parse_keyring (expanduser w2) cfg \<noteq> []" using assms(1,2) by simp
  have ld: "load_keymap (keymap_file st2) = JObj ?km" using assms(3) by (simp add: load_keymap_def)
  have pk: "preferred_kid ?km (TENANT_ID cfg) = JStr kid"
    by (simp add: preferred_kid_def update_conv')
  from acquire_run[OF ne ld] obtain evs n where
    "trace (snd (get_access_token_via_jwt w2 cfg st2)) = trace st2 @ Load # evs" "0 < n"
    "candidates_tried evs = take n (attempt_order (parse_keyring (expanduser w2) cfg)
                                      (preferred_kid ?km (TENANT_ID cfg)))"
    by blast
  then show ?thesis
    using assms(1) pk by (intro exI[of _ n]) (simp add: candidates_tried_append)
qed

lemma hinted_first:
  assumes "c \<in> set ring" and "fst c \<noteq> []"
  shows "fst (hd (attempt_order ring (JStr (fst c)))) = fst c
       \<and> (length (filter (\<lambda>p. fst p = fst c) ring) = 1 \<longrightarrow> hd (attempt_order ring (JStr (fst c))) = c)"
proof -
  let ?m = "filter (\<lambda>p. fst p = fst c) ring"
  have ao: "attempt_order ring (JStr (fst c)) = ?m @ filter (\<lambda>p. fst p \<noteq> fst c) ring"
    using assms(2) by (simp add: attempt_order_def)
  have ne: "?m \<noteq> []" using assms(1) by (auto simp: filter_empty_conv)
  then have "hd ?m \<in> set ?m" by (rule hd_in_set)
  then have 1: "fst (hd ?m) = fst c" by simp
  have 2: "hd ?m = c" if "length ?m = 1"
    using filter_single[OF that assms(1)] by simp
  show ?thesis using ao ne 1 2 by simp
qed

text \<open>
  C2 (as amended). First success wins: the first candidate of the attempt order
  whose exchange yields the token pair ends the call with that pair; the candidates
  before it and itself are the ones tried, none after it; the last effect of the call
  is the save of the loaded record with the tenant set to that candidate's id. When
  that write succeeds the snapshot is this record, and if the id is not empty, any
  later call for the tenant on the same ring tries the candidates in the order that
  starts with the entries of that id: its first candidate has the id, and is the
  successful candidate itself when no other entry shares it.
\<close>

theorem first_success_wins:
  assumes "ring = parse_keyring (expanduser w) cfg" and "ring \<noteq> []"
    and "load_keymap (keymap_file st) = JObj keymap"
    and "attempt_order ring (preferred_kid keymap (TENANT_ID cfg)) = pre @ c # post"
    and "\<forall>j<length pre. candidate_grant w cfg (audience_from_domain (SF_DOMAIN cfg)) j (pre ! j) = None"
    and "candidate_grant w cfg (audience_from_domain (SF_DOMAIN cfg)) (length pre) c = Some (t, h)"
  shows "\<exists>st'. get_access_token_via_jwt w cfg st = (Returned t h, st')
           \<and> candidates_tried (trace st') = candidates_tried (trace st) @ pre @ [c]
           \<and> last (trace st') = Save (JObj (AList.update (TENANT_ID cfg) (JStr (fst c)) keymap))
           \<and> (write_fault w (length pre) = None \<longrightarrow>
                keymap_file st' = Parsed (JObj (AList.update (TENANT_ID cfg) (JStr (fst c)) keymap)))
           \<and> (write_fault w (length pre) = None \<and> fst c \<noteq> [] \<longrightarrow>
                fst (hd (attempt_order ring (JStr (fst c)))) = fst c
                \<and> (length (filter (\<lambda>p. fst p = fst c) ring) = 1 \<longrightarrow>
                     hd (attempt_order ring (JStr (fst c))) = c)
                \<and> (\<forall>w2 tr2. expanduser w2 = expanduser w \<longrightarrow>
                     (\<exists>n>0. candidates_tried (trace (snd (get_access_token_via_jwt w2 cfg
                                 \<lparr>keymap_file = keymap_file st', trace = tr2\<rparr>)))
                             = candidates_tried tr2 @ take n (attempt_order ring (JStr (fst c))))))"
proof -
  let ?new = "AList.update (TENANT_ID cfg) (JStr (fst c)) keymap"
  have r1: "parse_keyring (expanduser w) cfg \<noteq> []" using assms(1,2) by simp
  have r3: "attempt_order (parse_keyring (expanduser w) cfg) (preferred_kid keymap (TENANT_ID cfg))
              = pre @ c # post" using assms(1,4) by simp
  from acquire_first_success[OF r1 assms(3) r3 assms(5,6)] obtain st' evs fl where
    run: "get_access_token_via_jwt w cfg st = (Returned t h, st')"
    and tr: "trace st' = trace st @ Load # evs" and ct: "candidates_tried evs = pre @ [c]"
    and ne: "evs \<noteq> []" and la: "last evs = Save (JObj ?new)"
    and fi: "keymap_file st' = save_keymap (write_fault w (length pre)) (JObj ?new) fl"
    by blast
  have a: "candidates_tried (trace st') = candidates_tried (trace st) @ pre @ [c]"
    using tr ct by (simp add: candidates_tried_append)
  have b: "last (trace st') = Save (JObj ?new)" using tr ne la by simp
  have saved_file: "keymap_file st' = Parsed (JObj ?new)" if "write_fault w (length pre) = None"
    using fi that by (simp add: save_keymap_def)
  have "c \<in> set (attempt_order ring (preferred_kid keymap (TENANT_ID cfg)))"
    using assms(4) by simp
  then have cin: "c \<in> set ring" by (simp add: attempt_order_set)
  have nxt: "\<exists>n>0. candidates_tried (trace (snd (get_access_token_via_jwt w2 cfg
                                 \<lparr>keymap_file = keymap_file st', trace = tr2\<rparr>)))
                   = candidates_tried tr2 @ take n (attempt_order ring (JStr (fst c)))"
    if "write_fault w (length pre) = None" and "expanduser w2 = expanduser w" for w2 tr2
  proof -
    have p: "parse_keyring (expanduser w2) cfg = ring" using that(2) assms(1) by simp
    have f: "keymap_file \<lparr>keymap_file = keymap_file st', trace = tr2\<rparr> = Parsed (JObj ?new)"
      using saved_file[OF that(1)] by simp
    from next_acquire[OF p assms(2) f] show ?thesis by simp
  qed
  show ?thesis
    using run a b saved_file hinted_first[OF cin] nxt
    by (intro exI[of _ st']) blast
qed

theorem first_success_wins_witness:
  "\<exists>st'. get_access_token_via_jwt (sample_world ''/b'') sample_config
            \<lparr>keymap_file = Parsed (JObj [(''other'', JStr ''C''), (''default'', JStr ''A'')]), trace = []\<rparr>
          = (Returned (JStr ''00D'') (JStr ''https://na1.salesforce.com''), st')
        \<and> candidates_tried (trace st') = [(''A'', ''/a''), (''B'', ''/b'')]
        \<and> keymap_file st' = Parsed (JObj [(''other'', JStr ''C''), (''default'', JStr ''B'')])
        \<and> (\<exists>n>0. candidates_tried (trace (snd (get_access_token_via_jwt (sample_world ''/b'')
                      sample_config \<lparr>keymap_file = keymap_file st', trace = []\<rparr>)))
                  = take n [(''B'', ''/b''), (''A'', ''/a''), (''C'', ''/c'')])"
proof -
  let ?w = "sample_world ''/b''"
  let ?km = "[(''other'', JStr ''C''), (''default'', JStr ''A'')]"
  let ?st = "\<lparr>keymap_file = Parsed (JObj ?km), trace = []\<rparr>"
  let ?ring = "[(''A'', ''/a''), (''B'', ''/b''), (''C'', ''/c'')]"
  have 1: "?ring = parse_keyring (expanduser ?w) sample_config"
    by (simp add: sample_expanduser sample_ring)
  have 2: "?ring \<noteq> []" by simp
  have 3: "load_keymap (keymap_file ?st) = JObj ?km" by (simp add: load_keymap_def)
  have 4: "attempt_order ?ring (preferred_kid ?km (TENANT_ID sample_config))
             = [(''A'', ''/a'')] @ (''B'', ''/b'') # [(''C'', ''/c'')]"
    using sample_hinted_order[of "''/b''"] unfolding 1[symmetric] .
  have 6: "candidate_grant ?w sample_config (audience_from_domain (SF_DOMAIN sample_config))
              (length [(''A'', ''/a'')]) (''B'', ''/b'')
           = Some (JStr ''00D'', JStr ''https://na1.salesforce.com'')"
    by (rule sample_grant_b)
  have wf: "write_fault ?w (length [(''A'', ''/a'')]) = None" by (simp add: sample_world_def)
  have ao: "attempt_order ?ring (JStr (fst (''B'', ''/b''))) = [(''B'', ''/b''), (''A'', ''/a''), (''C'', ''/c'')]"
    by (simp add: attempt_order_def)
  have pre5: "write_fault ?w (length [(''A'', ''/a'')]) = None \<and> fst (''B'', ''/b'') \<noteq> []"
    using wf by simp
  from first_success_wins [OF 1 2 3 4 sample_pre 6] obtain st' where
    r: "get_access_token_via_jwt ?w sample_config ?st
          = (Returned (JStr ''00D'') (JStr ''https://na1.salesforce.com''), st')"
    and c: "candidates_tried (trace st') = candidates_tried (trace ?st) @ [(''A'', ''/a'')] @ [(''B'', ''/b'')]"
    and l: "last (trace st') = Save (JObj (AList.update (TENANT_ID sample_config)
                                  (JStr (fst (''B'', ''/b''))) ?km))"
    and f: "write_fault ?w (length [(''A'', ''/a'')]) = None \<longrightarrow>
              keymap_file st' = Parsed (JObj (AList.update (TENANT_ID sample_config)
                                  (JStr (fst (''B'', ''/b''))) ?km))"
    and n: "write_fault ?w (length [(''A'', ''/a'')]) = None \<and> fst (''B'', ''/b'') \<noteq> [] \<longrightarrow>
              fst (hd (attempt_order ?ring (JStr (fst (''B'', ''/b''))))) = fst (''B'', ''/b'')
              \<and> (length (filter (\<lambda>p. fst p = fst (''B'', ''/b'')) ?ring) = 1 \<longrightarrow>
                   hd (attempt_order ?ring (JStr (fst (''B'', ''/b'')))) = (''B'', ''/b''))
              \<and> (\<forall>w2 tr2. expanduser w2 = expanduser ?w \<longrightarrow>
                 (\<exists>n>0. candidates_tried (trace (snd (get_access_token_via_jwt w2 sample_config
                             \<lparr>keymap_file = keymap_file st', trace = tr2\<rparr>)))
                         = candidates_tried tr2 @ take n (attempt_order ?ring (JStr (fst (''B'', ''/b''))))))"
    by (elim exE conjE) (rule that, assumption+)
  note all = n[THEN mp, OF pre5, THEN conjunct2, THEN conjunct2]
  from all[THEN spec, of ?w, THEN spec, of "[]", THEN mp, OF refl]
  have "\<exists>n>0. candidates_tried (trace (snd (get_access_token_via_jwt ?w sample_config
                             \<lparr>keymap_file = keymap_file st', trace = []\<rparr>)))
                         = candidates_tried [] @ take n (attempt_order ?ring (JStr (fst (''B'', ''/b''))))" .
  then have n': "\<exists>n>0. candidates_tried (trace (snd (get_access_token_via_jwt ?w sample_config
                             \<lparr>keymap_file = keymap_file st', trace = []\<rparr>)))
                         = take n [(''B'', ''/b''), (''A'', ''/a''), (''C'', ''/c'')]"
    unfolding ao by simp
  from f[THEN mp, OF wf]
  have f': "keymap_file st' = Parsed (JObj [(''other'', JStr ''C''), (''default'', JStr ''B'')])"
    by (simp add: sample_tenant)
  show ?thesis
    using r c f' n' by (intro exI[of _ st']) simp
qed

text \<open>
  The claim as written fails in three ways; in each, the first run returns the token
  of the second candidate, and the next run, started on the snapshot the first one
  left, tries the first entry of the ring first. On a disk that refuses the write
  nothing is persisted, and the next call starts with \<open>A\<close> again. A successful
  candidate whose id is empty is saved as an empty hint, which the next call ignores.
  And when two entries share an id, the hint brings the first of them to the front,
  not the one that succeeded.
\<close>

theorem first_success_wins_counterexample:
  "get_access_token_via_jwt ((sample_world ''/b'')\<lparr>write_fault := read_only_disk\<rparr>)
       sample_config fresh_state =
     (Returned (JStr ''00D'') (JStr ''https://na1.salesforce.com''),
      \<lparr>keymap_file = keymap_file fresh_state,
        trace = [Load,
                 Candidate ''A'' ''/a'',
                 Post ''https://login.salesforce.com/services/oauth2/token'' ''/a'',
                 Candidate ''B'' ''/b'',
                 Post ''https://login.salesforce.com/services/oauth2/token'' ''/b'',
                 Save (JObj [(''default'', JStr ''B'')])]\<rparr>)
   \<and> candidates_tried (trace (snd (get_access_token_via_jwt
          ((sample_world ''/b'')\<lparr>write_fault := read_only_disk\<rparr>) sample_config
          \<lparr>keymap_file = keymap_file fresh_state, trace = []\<rparr>)))
     = [(''A'', ''/a''), (''B'', ''/b'')]
   \<and> get_access_token_via_jwt (sample_world ''/b'') (sample_config\<lparr>SF_KEYS := ''A:/a,:/b''\<rparr>)
       fresh_state =
     (Returned (JStr ''00D'') (JStr ''https://na1.salesforce.com''),
      \<lparr>keymap_file = Parsed (JObj [(''default'', JStr [])]),
        trace = [Load,
                 Candidate ''A'' ''/a'',
                 Post ''https://login.salesforce.com/services/oauth2/token'' ''/a'',
                 Candidate [] ''/b'',
                 Post ''https://login.salesforce.com/services/oauth2/token'' ''/b'',
                 Save (JObj [(''default'', JStr [])])]\<rparr>)
   \<and> candidates_tried (trace (snd (get_access_token_via_jwt (sample_world ''/b'')
          (sample_config\<lparr>SF_KEYS := ''A:/a,:/b''\<rparr>)
          \<lparr>keymap_file = Parsed (JObj [(''default'', JStr [])]), trace = []\<rparr>)))
     = [(''A'', ''/a''), ([], ''/b'')]
   \<and> get_access_token_via_jwt (sample_world ''/b'') (sample_config\<lparr>SF_KEYS := ''K:/a,K:/b''\<rparr>)
       fresh_state =
     (Returned (JStr ''00D'') (JStr ''https://na1.salesforce.com''),
      \<lparr>keymap_file = Parsed (JObj [(''default'', JStr ''K'')]),
        trace = [Load,
                 Candidate ''K'' ''/a'',
                 Post ''https://login.salesforce.com/services/oauth2/token'' ''/a'',
                 Candidate ''K'' ''/b'',
                 Post ''https://login.salesforce.com/services/oauth2/token'' ''/b'',
                 Save (JObj [(''default'', JStr ''K'')])]\<rparr>)
   \<and> candidates_tried (trace (snd (get_access_token_via_jwt (sample_world ''/b'')
          (sample_config\<lparr>SF_KEYS := ''K:/a,K:/b''\<rparr>)
          \<lparr>keymap_file = Parsed (JObj [(''default'', JStr ''K'')]), trace = []\<rparr>)))
     = [(''K'', ''/a''), (''K'', ''/b'')]"
  by (simp add: run_defs)

end
